theory Spec2Isabelle
  imports Main "HOL-Library.Word"
begin

unbundle bit_operations_syntax

chapter \<open>The model\<close>

section \<open>Data model (common.hpp)\<close>

text \<open>
  Shares live in \<open>int64_t\<close> with wrap-around arithmetic; indices and seeds are
  \<open>uint64_t\<close>, matrix dimensions and on-disk values are \<open>uint32_t\<close>.  A
  \<open>ShareVec\<close> is a \<open>std::vector<int64_t>\<close>, a \<open>ShareMat\<close> a vector of rows.
\<close>

type_synonym i64 = "64 word"
type_synonym u64 = "64 word"
type_synonym i32 = "32 word"
type_synonym u32 = "32 word"
type_synonym i8 = "8 word"
type_synonym u8 = "8 word"

type_synonym ShareVec = "i64 list"
type_synonym ShareMat = "ShareVec list"

subsection \<open>Vector helpers\<close>

text \<open>
  Each helper loops over \<open>i < a.size()\<close> and reads \<open>a[i]\<close> and \<open>b[i]\<close>.  Reading
  \<open>b[i]\<close> beyond \<open>b.size()\<close> is undefined behaviour in the source; every statement
  below about these helpers carries the length equalities that exclude it.
\<close>

definition vec_add :: "ShareVec \<Rightarrow> ShareVec \<Rightarrow> ShareVec" where
  "vec_add a b = map (\<lambda>i. a ! i + b ! i) [0..<length a]"

definition vec_sub :: "ShareVec \<Rightarrow> ShareVec \<Rightarrow> ShareVec" where
  "vec_sub a b = map (\<lambda>i. a ! i - b ! i) [0..<length a]"

definition vec_dot_product :: "ShareVec \<Rightarrow> ShareVec \<Rightarrow> i64" where
  "vec_dot_product a b = foldl (\<lambda>result i. result + a ! i * b ! i) 0 [0..<length a]"

definition vec_scalar_mul :: "ShareVec \<Rightarrow> i64 \<Rightarrow> ShareVec" where
  "vec_scalar_mul a scalar = map (\<lambda>i. a ! i * scalar) [0..<length a]"

section \<open>Helper party: correlated randomness (p2.cpp)\<close>

text \<open>
  The helper draws its values from \<open>random_int8()\<close> and stores them in
  \<open>int64_t\<close> vectors.  The draws are inputs of the model; the functions compute what the
  helper sends to party 0 and to party 1.
\<close>

record dot_material =
  beaver_x_share :: ShareVec
  beaver_y_share :: ShareVec
  beaver_c_share :: i64

record scalar_vector_material =
  beaver_scalar_share :: i64
  beaver_vector_share :: ShareVec
  beaver_result_share :: ShareVec

definition generate_dot_product_material ::
  "ShareVec \<Rightarrow> ShareVec \<Rightarrow> ShareVec \<Rightarrow> ShareVec \<Rightarrow> i64 \<Rightarrow> dot_material \<times> dot_material" where
  "generate_dot_product_material X0_shares Y0_shares X1_shares Y1_shares randomness_term =
     (\<lparr>beaver_x_share = X0_shares, beaver_y_share = Y0_shares,
       beaver_c_share = vec_dot_product X0_shares Y1_shares + randomness_term\<rparr>,
      \<lparr>beaver_x_share = X1_shares, beaver_y_share = Y1_shares,
       beaver_c_share = vec_dot_product X1_shares Y0_shares - randomness_term\<rparr>)"

definition generate_scalar_vector_material ::
  "i64 \<Rightarrow> i64 \<Rightarrow> ShareVec \<Rightarrow> ShareVec \<Rightarrow> ShareVec \<Rightarrow>
     scalar_vector_material \<times> scalar_vector_material" where
  "generate_scalar_vector_material X0_value X1_value Y0_shares Y1_shares randomness_vector =
     (\<lparr>beaver_scalar_share = X0_value, beaver_vector_share = Y0_shares,
       beaver_result_share = vec_add (vec_scalar_mul Y0_shares X1_value) randomness_vector\<rparr>,
      \<lparr>beaver_scalar_share = X1_value, beaver_vector_share = Y1_shares,
       beaver_result_share = vec_sub (vec_scalar_mul Y1_shares X0_value) randomness_vector\<rparr>)"

section \<open>MPC gadgets of a server (pB.cpp)\<close>

text \<open>
  A gadget of one server is split into what the server sends on the peer link, which
  the source computes from local data and helper material only, and the result it
  computes once the peer's message has arrived.  The joint run of both servers hands
  each server the message the other one sent.
\<close>

definition inner_product_masked :: "ShareVec \<Rightarrow> ShareVec \<Rightarrow> dot_material \<Rightarrow> ShareVec \<times> ShareVec" where
  "inner_product_masked my_x_share my_y_share mat =
     (vec_add my_x_share (beaver_x_share mat), vec_add my_y_share (beaver_y_share mat))"

definition compute_secure_inner_product ::
  "ShareVec \<Rightarrow> ShareVec \<Rightarrow> dot_material \<Rightarrow> ShareVec \<times> ShareVec \<Rightarrow> i64" where
  "compute_secure_inner_product my_x_share my_y_share mat peer_masked =
     (let peer_masked_x = fst peer_masked; peer_masked_y = snd peer_masked
      in vec_dot_product my_x_share (vec_add my_y_share peer_masked_y)
           - vec_dot_product (beaver_y_share mat) peer_masked_x + beaver_c_share mat)"

definition secure_inner_product_pair ::
  "ShareVec \<Rightarrow> ShareVec \<Rightarrow> ShareVec \<Rightarrow> ShareVec \<Rightarrow> dot_material \<times> dot_material \<Rightarrow> i64 \<times> i64" where
  "secure_inner_product_pair x0 y0 x1 y1 mats =
     (compute_secure_inner_product x0 y0 (fst mats) (inner_product_masked x1 y1 (snd mats)),
      compute_secure_inner_product x1 y1 (snd mats) (inner_product_masked x0 y0 (fst mats)))"

definition scalar_vector_masked ::
  "i64 \<Rightarrow> ShareVec \<Rightarrow> scalar_vector_material \<Rightarrow> i64 \<times> ShareVec" where
  "scalar_vector_masked scalar_share vector_share mat =
     (scalar_share + beaver_scalar_share mat, vec_add vector_share (beaver_vector_share mat))"

definition compute_secure_scalar_vector_product ::
  "i64 \<Rightarrow> ShareVec \<Rightarrow> scalar_vector_material \<Rightarrow> i64 \<times> ShareVec \<Rightarrow> ShareVec" where
  "compute_secure_scalar_vector_product scalar_share vector_share mat peer_masked =
     (let peer_masked_scalar = fst peer_masked; peer_masked_vector = snd peer_masked
      in vec_add
           (vec_sub
              (vec_scalar_mul (vec_add vector_share peer_masked_vector) scalar_share)
              (vec_scalar_mul (beaver_vector_share mat) peer_masked_scalar))
           (beaver_result_share mat))"

definition secure_scalar_vector_pair ::
  "i64 \<Rightarrow> ShareVec \<Rightarrow> i64 \<Rightarrow> ShareVec \<Rightarrow>
     scalar_vector_material \<times> scalar_vector_material \<Rightarrow> ShareVec \<times> ShareVec" where
  "secure_scalar_vector_pair a0 v0 a1 v1 mats =
     (compute_secure_scalar_vector_product a0 v0 (fst mats) (scalar_vector_masked a1 v1 (snd mats)),
      compute_secure_scalar_vector_product a1 v1 (snd mats) (scalar_vector_masked a0 v0 (fst mats)))"

section \<open>Matrix files (common.hpp, pB.cpp)\<close>

text \<open>
  A matrix file holds unsigned 32-bit decimals.  \<open>file << output_val\<close> prints a
  \<open>uint32_t\<close> in decimal and \<open>in >> val\<close> reads the digits back; a number beyond the
  range of \<open>uint32_t\<close> is stored as the largest value of the type.  \<open>read_u32\<close> gives
  the value the stream extracts from a token that consists of decimal digits only, which
  is what the save loops write.  A sign, an empty token and the failure state of the
  stream are outside the model.
\<close>

definition digit_char :: "nat \<Rightarrow> char" where
  "digit_char d = ''0123456789'' ! d"

definition digit_value :: "char \<Rightarrow> nat" where
  "digit_value c = of_char c - 48"

function print_decimal :: "nat \<Rightarrow> string" where
  "print_decimal n =
     (if n < 10 then [digit_char n] else print_decimal (n div 10) @ [digit_char (n mod 10)])"
  by pat_completeness auto
termination
  by (relation "measure id") auto

declare print_decimal.simps [simp del]

definition parse_decimal :: "string \<Rightarrow> nat" where
  "parse_decimal s = foldl (\<lambda>acc c. acc * 10 + digit_value c) 0 s"

definition print_u32 :: "u32 \<Rightarrow> string" where
  "print_u32 val = print_decimal (unat val)"

definition read_u32 :: "string \<Rightarrow> u32" where
  "read_u32 s = (let n = parse_decimal s in if n > 4294967295 then 4294967295 else of_nat n)"

text \<open>
  \<open>static_cast<uint32_t>(static_cast<int32_t>(x))\<close> of the save loops (pB.cpp 237
  and 250) and of \<open>convert_to_uint32_matrix\<close>: the low 32 bits.
\<close>

definition share_to_u32 :: "i64 \<Rightarrow> u32" where
  "share_to_u32 x = (ucast :: i32 \<Rightarrow> u32) ((ucast :: i64 \<Rightarrow> i32) x)"

text \<open>
  \<open>static_cast<int64_t>(static_cast<int32_t>(val))\<close> of \<open>load_matrix_shares\<close>:
  the value read as a signed 32-bit integer, sign-extended.
\<close>

definition u32_to_share :: "u32 \<Rightarrow> i64" where
  "u32_to_share val = (scast :: i32 \<Rightarrow> i64) ((ucast :: u32 \<Rightarrow> i32) val)"

definition save_share_value :: "i64 \<Rightarrow> string" where
  "save_share_value x = print_u32 (share_to_u32 x)"

definition load_share_value :: "string \<Rightarrow> i64" where
  "load_share_value s = u32_to_share (read_u32 s)"

section \<open>Order of sends and receives on the peer link (common.hpp, pB.cpp)\<close>

text \<open>
  What one server does on the peer link in each exchange, in program order, for the
  compile-time constant \<open>ROLE\<close>: \<open>exchange_value\<close> (common.hpp 277-287), the rotation
  offset of the oblivious lookup (pB.cpp 118-124), the secure dot product (51-61), the
  secure scalar-vector product (82-92) and one round of the FCW-repair loop (204-210).
\<close>

datatype peer_event = Send_value | Recv_value | Send_vector | Recv_vector

definition exchange_value_events :: "int \<Rightarrow> peer_event list" where
  "exchange_value_events ROLE =
     (if ROLE = 0 then [Send_value, Recv_value] else [Recv_value, Send_value])"

definition lookup_peer_events :: "int \<Rightarrow> peer_event list" where
  "lookup_peer_events ROLE =
     (if ROLE = 1 then [Recv_value, Send_value] else [Send_value, Recv_value])"

definition inner_product_peer_events :: "int \<Rightarrow> peer_event list" where
  "inner_product_peer_events ROLE =
     (if ROLE = 1 then [Recv_vector, Recv_vector, Send_vector, Send_vector]
      else [Send_vector, Send_vector, Recv_vector, Recv_vector])"

definition scalar_vector_peer_events :: "int \<Rightarrow> peer_event list" where
  "scalar_vector_peer_events ROLE =
     (if ROLE = 0 then [Recv_value, Recv_vector, Send_value, Send_vector]
      else [Send_value, Send_vector, Recv_value, Recv_vector])"

definition fcw_repair_peer_events :: "int \<Rightarrow> peer_event list" where
  "fcw_repair_peer_events ROLE =
     (if ROLE = 0 then [Recv_value, Send_value] else [Send_value, Recv_value])"

text \<open>
  One query of \<open>execute_protocol\<close> (pB.cpp 184-221): the lookup with one secure dot
  product per feature, the dot product of the profiles, the two scalar-vector products
  and the FCW-repair loop over the features.
\<close>

definition query_peer_events :: "int \<Rightarrow> nat \<Rightarrow> peer_event list" where
  "query_peer_events ROLE feature_dim =
     lookup_peer_events ROLE
     @ concat (replicate feature_dim (inner_product_peer_events ROLE))
     @ inner_product_peer_events ROLE
     @ scalar_vector_peer_events ROLE
     @ scalar_vector_peer_events ROLE
     @ concat (replicate feature_dim (fcw_repair_peer_events ROLE))"

fun is_send :: "peer_event \<Rightarrow> bool" where
  "is_send Send_value = True"
| "is_send Send_vector = True"
| "is_send Recv_value = False"
| "is_send Recv_vector = False"

fun mirrored :: "peer_event \<Rightarrow> peer_event" where
  "mirrored Send_value = Recv_value"
| "mirrored Send_vector = Recv_vector"
| "mirrored Recv_value = Send_value"
| "mirrored Recv_vector = Send_vector"

definition sends_then_receives :: "peer_event list \<Rightarrow> bool" where
  "sends_then_receives es =
     (takeWhile is_send es \<noteq> [] \<and> dropWhile is_send es \<noteq> []
      \<and> list_all (\<lambda>e. \<not> is_send e) (dropWhile is_send es))"

definition receives_then_sends :: "peer_event list \<Rightarrow> bool" where
  "receives_then_sends es =
     (takeWhile (\<lambda>e. \<not> is_send e) es \<noteq> [] \<and> dropWhile (\<lambda>e. \<not> is_send e) es \<noteq> []
      \<and> list_all is_send (dropWhile (\<lambda>e. \<not> is_send e) es))"

text \<open>The role-parity rule: role 0 sends first and then receives, role 1 the reverse.\<close>

definition role_parity :: "int \<Rightarrow> peer_event list \<Rightarrow> bool" where
  "role_parity ROLE es = (if ROLE = 0 then sends_then_receives es else receives_then_sends es)"

section \<open>Correctness checker: comparison and exit code (check\_correctness.cpp)\<close>

definition convert_to_uint32_matrix :: "ShareMat \<Rightarrow> u32 list list" where
  "convert_to_uint32_matrix M = map (\<lambda>row. map share_to_u32 row) M"

text \<open>Lines 308-321: the updated shares are added entry by entry in \<open>uint32_t\<close>.\<close>

definition recombine_updated :: "u32 list list \<Rightarrow> u32 list list \<Rightarrow> nat \<Rightarrow> nat \<Rightarrow> u32 list list" where
  "recombine_updated A0 A1 rows cols =
     map (\<lambda>i. map (\<lambda>f. A0 ! i ! f + A1 ! i ! f) [0..<cols]) [0..<rows]"

record mismatch_report =
  report_matrix :: string
  report_row :: nat
  report_col :: nat
  report_mpc :: u32
  report_cleartext :: u32

definition MAX_ERRORS_TO_PRINT :: int where
  "MAX_ERRORS_TO_PRINT = 10"

text \<open>
  One iteration of a comparison loop (lines 340-349 for U, 356-365 for V) on the state
  \<open>(ok, errors, reports printed so far)\<close>.
\<close>

definition compare_entry ::
  "string \<Rightarrow> u32 list list \<Rightarrow> u32 list list \<Rightarrow> nat \<times> nat \<Rightarrow>
     bool \<times> int \<times> mismatch_report list \<Rightarrow> bool \<times> int \<times> mismatch_report list" where
  "compare_entry name mpc cleartext pos st =
     (let i = fst pos; f = snd pos; ok = fst st; errors = fst (snd st); printed = snd (snd st)
      in if mpc ! i ! f \<noteq> cleartext ! i ! f
         then (False, errors + 1,
               if errors < MAX_ERRORS_TO_PRINT
               then printed @ [\<lparr>report_matrix = name, report_row = i, report_col = f,
                                report_mpc = mpc ! i ! f, report_cleartext = cleartext ! i ! f\<rparr>]
               else printed)
         else (ok, errors, printed))"

definition compare_matrix ::
  "string \<Rightarrow> u32 list list \<Rightarrow> u32 list list \<Rightarrow> nat \<Rightarrow> nat \<Rightarrow> bool \<times> int \<times> mismatch_report list" where
  "compare_matrix name mpc cleartext rows cols =
     fold (compare_entry name mpc cleartext) (List.product [0..<rows] [0..<cols]) (True, 0, [])"

record checker_output =
  printed_reports :: "mismatch_report list"
  summary_lines :: "string list"
  exit_code :: int

text \<open>
  Lines 331-389 of \<open>main\<close>: both comparison loops, the summary and the exit code, for
  \<open>m\<close> users, \<open>n\<close> items and \<open>k\<close> features.
\<close>

definition checker_compare ::
  "nat \<Rightarrow> nat \<Rightarrow> nat \<Rightarrow> u32 list list \<Rightarrow> u32 list list \<Rightarrow> u32 list list \<Rightarrow> u32 list list \<Rightarrow>
     checker_output" where
  "checker_compare m n k U_mpc U_cleartext_uint V_mpc V_cleartext_uint =
     (let ru = compare_matrix ''U'' U_mpc U_cleartext_uint m k;
          rv = compare_matrix ''V'' V_mpc V_cleartext_uint n k;
          u_ok = fst ru; u_errors = fst (snd ru);
          v_ok = fst rv; v_errors = fst (snd rv)
      in \<lparr>printed_reports = snd (snd ru) @ snd (snd rv),
          summary_lines =
            (if u_ok \<and> v_ok
             then [''   SUCCESS: MPC result matches cleartext.'',
                   ''   All updates were computed correctly!'']
             else [''   FAILURE: MPC result does NOT match.'']
                  @ (if u_errors > 0
                     then [''   U matrix errors: '' @ print_decimal (nat u_errors) @ '' mismatches'']
                     else [])
                  @ (if v_errors > 0
                     then [''   V matrix errors: '' @ print_decimal (nat v_errors) @ '' mismatches'']
                     else [])
                  @ (if u_errors + v_errors > MAX_ERRORS_TO_PRINT
                     then [''   (Only first '' @ print_decimal (nat MAX_ERRORS_TO_PRINT)
                           @ '' errors shown above)'']
                     else [])),
          exit_code = (if u_ok \<and> v_ok then 0 else 1)\<rparr>)"

section \<open>Distributed point function (common.hpp)\<close>

record ChildSeed =
  s_left :: u64
  s_right :: u64
  f_left :: bool
  f_right :: bool

record CorrectionWord =
  scw :: u64
  fcw_0 :: bool
  fcw_1 :: bool

record DPFKey =
  s_root :: u64
  f_root :: bool
  cws :: "CorrectionWord list"
  FCW :: i64
  sign :: i32

subsection \<open>The generator behind \<open>PRG\<close>\<close>

text \<open>
  \<open>PRG\<close> seeds a \<open>std::mt19937\<close> with the seed and takes its first four outputs.
  The engine is the 32-bit Mersenne Twister as the C++ standard fixes it.  Seeding with
  \<open>s\<close> fills the state of 624 words: word 0 is \<open>s mod 2^32\<close> and word \<open>i\<close> is
  \<open>1812433253 * (p XOR (p >> 30)) + i\<close> for the previous word \<open>p\<close>.  Output \<open>k\<close> is the
  tempered twist of the words \<open>k\<close>, \<open>k + 1\<close> and \<open>k + 397\<close>; for \<open>k < 227\<close> these are
  still words of the seeded state, which covers the four outputs \<open>PRG\<close> reads.
\<close>

fun mt_seed :: "u32 \<Rightarrow> nat \<Rightarrow> u32" where
  "mt_seed s 0 = s"
| "mt_seed s (Suc i) =
     (let p = mt_seed s i in 1812433253 * (p XOR drop_bit 30 p) + of_nat (Suc i))"

definition mt_temper :: "u32 \<Rightarrow> u32" where
  "mt_temper y0 =
     (let y1 = y0 XOR drop_bit 11 y0;
          y2 = y1 XOR (push_bit 7 y1 AND 0x9d2c5680);
          y3 = y2 XOR (push_bit 15 y2 AND 0xefc60000)
      in y3 XOR drop_bit 18 y3)"

definition mt19937 :: "u32 \<Rightarrow> nat \<Rightarrow> u32" where
  "mt19937 s k =
     (let y = (mt_seed s k AND 0x80000000) OR (mt_seed s (k + 1) AND 0x7fffffff);
          x = mt_seed s (k + 397) XOR drop_bit 1 y XOR (if bit y 0 then 0x9908b0df else 0)
      in mt_temper x)"

definition PRG :: "u64 \<Rightarrow> ChildSeed" where
  "PRG seed =
     (let engine = mt19937 (ucast seed)
      in \<lparr>s_left = ucast ((ucast :: u32 \<Rightarrow> u8) (engine 0)),
          s_right = ucast ((ucast :: u32 \<Rightarrow> u8) (engine 1)),
          f_left = (engine 2 mod 2 = 1),
          f_right = (engine 3 mod 2 = 1)\<rparr>)"

subsection \<open>Depth of the tree\<close>

text \<open>
  \<open>ceil(log2(domain_size))\<close> is computed in \<open>double\<close>.  The model takes the exact
  value, the least \<open>d\<close> with \<open>domain_size \<le> 2^d\<close>.  With a \<open>log2\<close> that is accurate to one
  unit in the last place the two agree for every domain size below \<open>2^48\<close>, which is
  beyond the length of any vector \<open>EvalFull\<close> can allocate and covers every
  \<open>uint32_t\<close> number of items the servers and the query generator pass.  Above that
  the rounded logarithm of a size just over a power of two can be the exponent itself
  (at \<open>2^49 + 1\<close> the source computes 49 levels, the exact value is 50), so \<open>dpf_depth\<close>
  stands for the depth of the source only for \<open>domain_size < 2^48\<close>, and the theorems
  about keys and their evaluation carry that bound or a smaller one.
\<close>

function ceil_log2 :: "nat \<Rightarrow> nat" where
  "ceil_log2 n = (if n \<le> 1 then 0 else Suc (ceil_log2 ((n + 1) div 2)))"
  by pat_completeness auto
termination
  by (relation "measure id") auto

declare ceil_log2.simps [simp del]

definition dpf_depth :: "u64 \<Rightarrow> nat" where
  "dpf_depth domain_size =
     (let depth = (if domain_size = 0 then 0 else ceil_log2 (unat domain_size))
      in if depth = 0 then 1 else depth)"

subsection \<open>Key generation\<close>

text \<open>
  The state of the loop of \<open>generateDPF\<close>: both parties' current seed and flag and the
  correction words pushed so far.  The three draws (\<open>random_uint8()\<close> twice for the root
  seeds, \<open>random_int8()\<close> for the mask \<open>R\<close>) are arguments.
\<close>

record gen_state =
  s0_curr :: u64
  s1_curr :: u64
  f0_curr :: bool
  f1_curr :: bool
  gen_cws :: "CorrectionWord list"

definition generateDPF_level :: "u64 \<Rightarrow> nat \<Rightarrow> nat \<Rightarrow> gen_state \<Rightarrow> gen_state" where
  "generateDPF_level index depth i st =
     (let c0 = PRG (s0_curr st); c1 = PRG (s1_curr st);
          path_bit = bit index (depth - 1 - i);
          cw = (if \<not> path_bit
                then \<lparr>scw = s_right c0 XOR s_right c1,
                      fcw_0 = ((f_left c0 \<noteq> f_left c1) \<noteq> True),
                      fcw_1 = (f_right c0 \<noteq> f_right c1)\<rparr>
                else \<lparr>scw = s_left c0 XOR s_left c1,
                      fcw_0 = (f_left c0 \<noteq> f_left c1),
                      fcw_1 = ((f_right c0 \<noteq> f_right c1) \<noteq> True)\<rparr>);
          s0 = (if \<not> path_bit then s_left c0 else s_right c0);
          s1 = (if \<not> path_bit then s_left c1 else s_right c1);
          f0_next = (if \<not> path_bit then f_left c0 else f_right c0);
          f1_next = (if \<not> path_bit then f_left c1 else f_right c1);
          fcw_path = (if \<not> path_bit then fcw_0 cw else fcw_1 cw)
      in \<lparr>s0_curr = (if f0_curr st then s0 XOR scw cw else s0),
          s1_curr = (if f1_curr st then s1 XOR scw cw else s1),
          f0_curr = (if f0_curr st then f0_next \<noteq> fcw_path else f0_next),
          f1_curr = (if f1_curr st then f1_next \<noteq> fcw_path else f1_next),
          gen_cws = gen_cws st @ [cw]\<rparr>)"

definition key_sign :: "bool \<Rightarrow> i32" where
  "key_sign f_curr = of_bool f_curr * 1 + (1 - of_bool f_curr) * (- 1)"

text \<open>The state after the loop over the levels (lines 101-141).\<close>

definition generateDPF_loop :: "u64 \<Rightarrow> u64 \<Rightarrow> u8 \<Rightarrow> u8 \<Rightarrow> gen_state" where
  "generateDPF_loop index domain_size draw_s0 draw_s1 =
     (let depth = dpf_depth domain_size
      in fold (generateDPF_level index depth) [0..<depth]
           \<lparr>s0_curr = ucast draw_s0, s1_curr = ucast draw_s1,
            f0_curr = False, f1_curr = True, gen_cws = []\<rparr>)"

definition generateDPF :: "u64 \<Rightarrow> i64 \<Rightarrow> u64 \<Rightarrow> u8 \<Rightarrow> u8 \<Rightarrow> i8 \<Rightarrow> DPFKey \<times> DPFKey" where
  "generateDPF index val domain_size draw_s0 draw_s1 draw_R =
     (let st = generateDPF_loop index domain_size draw_s0 draw_s1;
          s0_final = s0_curr st;
          s1_final = s1_curr st;
          R = (scast draw_R :: i64);
          sign0 = key_sign (f0_curr st);
          sign1 = key_sign (f1_curr st)
      in (\<lparr>s_root = ucast draw_s0, f_root = False, cws = gen_cws st,
           FCW = R + scast sign0 * s0_final, sign = sign0\<rparr>,
          \<lparr>s_root = ucast draw_s1, f_root = True, cws = gen_cws st,
           FCW = (val - R) + scast sign1 * s1_final, sign = sign1\<rparr>))"

subsection \<open>Evaluation\<close>

text \<open>
  \<open>key.cws[i]\<close> is read only under \<open>f_curr\<close>; reading it beyond the vector is
  undefined behaviour in the source, and the statements below are about keys whose
  \<open>cws\<close> has one word per level.
\<close>

definition evalDPF_level :: "DPFKey \<Rightarrow> u64 \<Rightarrow> nat \<Rightarrow> nat \<Rightarrow> u64 \<times> bool \<Rightarrow> u64 \<times> bool" where
  "evalDPF_level key index depth i st =
     (let s_curr = fst st; f_curr = snd st;
          ch = PRG s_curr;
          path_bit = bit index (depth - 1 - i);
          s_child = (if \<not> path_bit then s_left ch else s_right ch);
          f_next = (if \<not> path_bit then f_left ch else f_right ch)
      in if f_curr
         then (s_child XOR scw (cws key ! i),
               f_next \<noteq> (if \<not> path_bit then fcw_0 (cws key ! i) else fcw_1 (cws key ! i)))
         else (s_child, f_next))"

definition evalDPF :: "DPFKey \<Rightarrow> u64 \<Rightarrow> u64 \<Rightarrow> i64" where
  "evalDPF key index domain_size =
     (let depth = dpf_depth domain_size;
          st = fold (evalDPF_level key index depth) [0..<depth] (s_root key, f_root key);
          val = (if snd st then fst st + FCW key else fst st)
      in val * scast (sign key))"

definition EvalFull :: "DPFKey \<Rightarrow> u64 \<Rightarrow> i64 list" where
  "EvalFull k domain_size = map (\<lambda>i. evalDPF k (of_nat i) domain_size) [0..<unat domain_size]"

subsection \<open>FCW repair (pB.cpp 199-216)\<close>

text \<open>
  One round of the item-update loop for one server: the masked update it sends, and
  the copy of its key with the repaired FCW once the peer's masked update has arrived.
\<close>

definition masked_update :: "i64 \<Rightarrow> DPFKey \<Rightarrow> i64" where
  "masked_update update_component dpf_key_share = update_component - FCW dpf_key_share"

definition modified_key :: "i64 \<Rightarrow> DPFKey \<Rightarrow> i64 \<Rightarrow> DPFKey" where
  "modified_key update_component dpf_key_share peer_masked_update =
     dpf_key_share\<lparr>FCW := masked_update update_component dpf_key_share + peer_masked_update\<rparr>"

subsection \<open>The tree along a path (used in the proofs)\<close>

text \<open>
  One level of evaluation with the correction word and the path bit given, the
  correction word key generation builds at a level, and both iterated along a list of
  path bits, most significant first.
\<close>

definition eval_step :: "CorrectionWord \<Rightarrow> bool \<Rightarrow> u64 \<times> bool \<Rightarrow> u64 \<times> bool" where
  "eval_step cw path_bit st =
     (let ch = PRG (fst st);
          s_child = (if \<not> path_bit then s_left ch else s_right ch);
          f_next = (if \<not> path_bit then f_left ch else f_right ch)
      in if snd st
         then (s_child XOR scw cw, f_next \<noteq> (if \<not> path_bit then fcw_0 cw else fcw_1 cw))
         else (s_child, f_next))"

definition path_word :: "bool \<Rightarrow> u64 \<times> bool \<Rightarrow> u64 \<times> bool \<Rightarrow> CorrectionWord" where
  "path_word path_bit p0 p1 =
     (let c0 = PRG (fst p0); c1 = PRG (fst p1)
      in if \<not> path_bit
         then \<lparr>scw = s_right c0 XOR s_right c1,
               fcw_0 = ((f_left c0 \<noteq> f_left c1) \<noteq> True),
               fcw_1 = (f_right c0 \<noteq> f_right c1)\<rparr>
         else \<lparr>scw = s_left c0 XOR s_left c1,
               fcw_0 = (f_left c0 \<noteq> f_left c1),
               fcw_1 = ((f_right c0 \<noteq> f_right c1) \<noteq> True)\<rparr>)"

fun gen_words :: "bool list \<Rightarrow> u64 \<times> bool \<Rightarrow> u64 \<times> bool \<Rightarrow> CorrectionWord list" where
  "gen_words [] p0 p1 = []"
| "gen_words (b # bs) p0 p1 =
     path_word b p0 p1
       # gen_words bs (eval_step (path_word b p0 p1) b p0) (eval_step (path_word b p0 p1) b p1)"

fun eval_path :: "CorrectionWord list \<Rightarrow> bool list \<Rightarrow> u64 \<times> bool \<Rightarrow> u64 \<times> bool" where
  "eval_path (cw # ws) (b # bs) st = eval_path ws bs (eval_step cw b st)"
| "eval_path ws bs st = st"

definition path_bits :: "u64 \<Rightarrow> nat \<Rightarrow> bool list" where
  "path_bits index depth = map (\<lambda>i. bit index (depth - 1 - i)) [0..<depth]"

section \<open>Oblivious lookup (pB.cpp, p2.cpp)\<close>

text \<open>
  What the helper sends one server for a lookup: its share of the rotation index and
  its share of the one-hot vector.  The helper (p2.cpp 56-70) draws the index with
  \<open>random_uint32() % num_items\<close>, the first vector of shares with \<open>random_int8()\<close> and
  the first share of the index with \<open>random_int32()\<close>.
\<close>

record lookup_material =
  rotation_base :: i64
  rotation_vector :: ShareVec

definition one_hot_vector :: "nat \<Rightarrow> nat \<Rightarrow> ShareVec" where
  "one_hot_vector num_items random_index = (replicate num_items 0)[random_index := 1]"

definition generate_lookup_material ::
  "u32 \<Rightarrow> u32 \<Rightarrow> ShareVec \<Rightarrow> i32 \<Rightarrow> lookup_material \<times> lookup_material" where
  "generate_lookup_material num_items draw_index r0_shares draw_offset =
     (let random_index = (ucast (draw_index mod num_items) :: i64);
          r1_shares = vec_sub (one_hot_vector (unat num_items) (unat random_index)) r0_shares;
          rotation_offset_share = (scast draw_offset :: i64)
      in (\<lparr>rotation_base = rotation_offset_share, rotation_vector = r0_shares\<rparr>,
          \<lparr>rotation_base = random_index - rotation_offset_share, rotation_vector = r1_shares\<rparr>))"

text \<open>The remainder of C++ on signed integers truncates towards zero.\<close>

definition c_rem :: "int \<Rightarrow> int \<Rightarrow> int" where
  "c_rem a b = sgn a * (\<bar>a\<bar> mod \<bar>b\<bar>)"

text \<open>
  pB.cpp 126-132.  \<open>combined_offset\<close> is an \<open>int64_t\<close> and \<open>num_items\<close> a
  \<open>uint32_t\<close>: the operands of \<open>%\<close> and \<open>+\<close> are converted to \<open>int64_t\<close>, where
  nothing overflows, and the result is stored in a \<open>uint32_t\<close>.
\<close>

definition total_rotation :: "u32 \<Rightarrow> i64 \<Rightarrow> u32" where
  "total_rotation num_items combined_offset =
     (if 0 \<le> sint combined_offset
      then word_of_int (c_rem (sint combined_offset) (uint num_items))
      else word_of_int
             (c_rem (uint num_items + c_rem (sint combined_offset) (uint num_items))
                (uint num_items)))"

text \<open>
  pB.cpp 134-137.  \<open>std::rotate\<close> makes the element at the middle position the first
  one, which is \<open>rotate\<close> by that position; the position is computed in \<open>size_t\<close>.
\<close>

definition rotate_selector :: "ShareVec \<Rightarrow> u32 \<Rightarrow> ShareVec" where
  "rotate_selector rotation_vec rotation_amount =
     rotate
       (unat (((of_nat (length rotation_vec) :: u64) - ucast rotation_amount)
                mod (of_nat (length rotation_vec) :: u64)))
       rotation_vec"

definition lookup_rotation_offset :: "i64 \<Rightarrow> lookup_material \<Rightarrow> i64" where
  "lookup_rotation_offset item_share_val lm = item_share_val - rotation_base lm"

definition lookup_selector :: "i64 \<Rightarrow> ShareMat \<Rightarrow> lookup_material \<Rightarrow> i64 \<Rightarrow> ShareVec" where
  "lookup_selector item_share_val item_matrix lm peer_rotation_offset =
     (let num_items = (of_nat (length item_matrix) :: u32);
          combined_offset = lookup_rotation_offset item_share_val lm + peer_rotation_offset
      in rotate_selector (rotation_vector lm) (total_rotation num_items combined_offset))"

definition item_matrix_column :: "ShareMat \<Rightarrow> nat \<Rightarrow> ShareVec" where
  "item_matrix_column item_matrix feat_idx =
     map (\<lambda>item_idx. item_matrix ! item_idx ! feat_idx)
       [0..<unat (of_nat (length item_matrix) :: u32)]"

definition lookup_feature_dim :: "ShareMat \<Rightarrow> nat" where
  "lookup_feature_dim item_matrix = unat (of_nat (length (item_matrix ! 0)) :: u32)"

text \<open>
  The masked vectors a server sends in the loop over the features (one secure dot
  product per feature, each with its own material from the helper), and the item
  profile it returns.
\<close>

definition retrieve_masked ::
  "i64 \<Rightarrow> ShareMat \<Rightarrow> lookup_material \<Rightarrow> dot_material list \<Rightarrow> i64 \<Rightarrow> (ShareVec \<times> ShareVec) list" where
  "retrieve_masked item_share_val item_matrix lm mats peer_rotation_offset =
     (let selector_vector = lookup_selector item_share_val item_matrix lm peer_rotation_offset
      in map (\<lambda>feat_idx.
                inner_product_masked (item_matrix_column item_matrix feat_idx) selector_vector
                  (mats ! feat_idx))
           [0..<lookup_feature_dim item_matrix])"

definition retrieve_item_profile_shares ::
  "i64 \<Rightarrow> ShareMat \<Rightarrow> lookup_material \<Rightarrow> dot_material list \<Rightarrow> i64 \<Rightarrow>
     (ShareVec \<times> ShareVec) list \<Rightarrow> ShareVec" where
  "retrieve_item_profile_shares item_share_val item_matrix lm mats peer_rotation_offset peer_masked =
     (let selector_vector = lookup_selector item_share_val item_matrix lm peer_rotation_offset
      in map (\<lambda>feat_idx.
                compute_secure_inner_product (item_matrix_column item_matrix feat_idx)
                  selector_vector (mats ! feat_idx) (peer_masked ! feat_idx))
           [0..<lookup_feature_dim item_matrix])"

definition retrieve_item_profile_pair ::
  "i64 \<Rightarrow> ShareMat \<Rightarrow> i64 \<Rightarrow> ShareMat \<Rightarrow> lookup_material \<times> lookup_material \<Rightarrow>
     dot_material list \<Rightarrow> dot_material list \<Rightarrow> ShareVec \<times> ShareVec" where
  "retrieve_item_profile_pair j0 V0 j1 V1 lms mats0 mats1 =
     (let offset0 = lookup_rotation_offset j0 (fst lms);
          offset1 = lookup_rotation_offset j1 (snd lms);
          sent0 = retrieve_masked j0 V0 (fst lms) mats0 offset1;
          sent1 = retrieve_masked j1 V1 (snd lms) mats1 offset0
      in (retrieve_item_profile_shares j0 V0 (fst lms) mats0 offset1 sent1,
          retrieve_item_profile_shares j1 V1 (snd lms) mats1 offset0 sent0))"

section \<open>Helper session for one query (p2.cpp 54-79)\<close>

text \<open>
  The random draws behind one dot-product material (\<open>X0, Y0, X1, Y1\<close> and the
  randomness term) and behind one scalar-vector material (\<open>X0_value, X1_value, Y0, Y1\<close>
  and the randomness vector), and all draws of one query in the order the helper makes
  them.
\<close>

type_synonym dot_draw = "ShareVec \<times> ShareVec \<times> ShareVec \<times> ShareVec \<times> i64"
type_synonym scalar_vector_draw = "i64 \<times> i64 \<times> ShareVec \<times> ShareVec \<times> ShareVec"

definition dot_material_of :: "dot_draw \<Rightarrow> dot_material \<times> dot_material" where
  "dot_material_of d =
     (case d of (X0_shares, Y0_shares, X1_shares, Y1_shares, randomness_term) \<Rightarrow>
        generate_dot_product_material X0_shares Y0_shares X1_shares Y1_shares randomness_term)"

definition scalar_vector_material_of ::
  "scalar_vector_draw \<Rightarrow> scalar_vector_material \<times> scalar_vector_material" where
  "scalar_vector_material_of d =
     (case d of (X0_value, X1_value, Y0_shares, Y1_shares, randomness_vector) \<Rightarrow>
        generate_scalar_vector_material X0_value X1_value Y0_shares Y1_shares randomness_vector)"

record query_draws =
  draw_random_index :: u32
  draw_r0_shares :: ShareVec
  draw_rotation_offset_share :: i32
  draw_lookup_dots :: "dot_draw list"
  draw_profile_dot :: dot_draw
  draw_scaled :: scalar_vector_draw
  draw_update :: scalar_vector_draw

record query_material =
  lookup_mat :: lookup_material
  lookup_dot_mats :: "dot_material list"
  profile_dot_mat :: dot_material
  scaled_mat :: scalar_vector_material
  update_mat :: scalar_vector_material

definition helper_query_material :: "u32 \<Rightarrow> query_draws \<Rightarrow> query_material \<times> query_material" where
  "helper_query_material num_items d =
     (let lms = generate_lookup_material num_items (draw_random_index d) (draw_r0_shares d)
                  (draw_rotation_offset_share d);
          dots = map dot_material_of (draw_lookup_dots d);
          profile = dot_material_of (draw_profile_dot d);
          scaled = scalar_vector_material_of (draw_scaled d);
          update = scalar_vector_material_of (draw_update d)
      in (\<lparr>lookup_mat = fst lms, lookup_dot_mats = map fst dots, profile_dot_mat = fst profile,
           scaled_mat = fst scaled, update_mat = fst update\<rparr>,
          \<lparr>lookup_mat = snd lms, lookup_dot_mats = map snd dots, profile_dot_mat = snd profile,
           scaled_mat = snd scaled, update_mat = snd update\<rparr>))"

text \<open>
  The helper fills vectors of \<open>num_items\<close> entries for the lookup and of
  \<open>feature_dim\<close> entries for the three products after it, one lookup material per
  feature.
\<close>

definition dot_draw_ok :: "nat \<Rightarrow> dot_draw \<Rightarrow> bool" where
  "dot_draw_ok len d =
     (case d of (X0_shares, Y0_shares, X1_shares, Y1_shares, randomness_term) \<Rightarrow>
        length X0_shares = len \<and> length Y0_shares = len
        \<and> length X1_shares = len \<and> length Y1_shares = len)"

definition scalar_vector_draw_ok :: "nat \<Rightarrow> scalar_vector_draw \<Rightarrow> bool" where
  "scalar_vector_draw_ok len d =
     (case d of (X0_value, X1_value, Y0_shares, Y1_shares, randomness_vector) \<Rightarrow>
        length Y0_shares = len \<and> length Y1_shares = len \<and> length randomness_vector = len)"

definition query_draws_ok :: "nat \<Rightarrow> nat \<Rightarrow> query_draws \<Rightarrow> bool" where
  "query_draws_ok num_items feature_dim d =
     (length (draw_r0_shares d) = num_items
      \<and> length (draw_lookup_dots d) = feature_dim
      \<and> list_all (dot_draw_ok num_items) (draw_lookup_dots d)
      \<and> dot_draw_ok feature_dim (draw_profile_dot d)
      \<and> scalar_vector_draw_ok feature_dim (draw_scaled d)
      \<and> scalar_vector_draw_ok feature_dim (draw_update d))"

section \<open>Query files (gen\_queries.cpp of A3-A4, common.hpp)\<close>

record Query =
  user_index :: u32
  item_share :: i64
  dpf_key :: DPFKey

text \<open>
  The random choices behind one query: the user, the item, the first share of the
  item index (a draw of \<open>uniform_int_distribution<int32_t>\<close>) and the three draws of
  \<open>generateDPF\<close>.  The generator writes one record to each server's query file and the
  pair (user, item) to the cleartext file.
\<close>

record query_choice =
  selected_user :: u32
  selected_item :: u32
  draw_item_share :: i32
  draw_seed0 :: u8
  draw_seed1 :: u8
  draw_mask :: i8

definition generate_query :: "u32 \<Rightarrow> query_choice \<Rightarrow> Query \<times> Query" where
  "generate_query num_items c =
     (let item_share_p0 = (scast (draw_item_share c) :: i64);
          item_share_p1 = (ucast (selected_item c) :: i64) - item_share_p0;
          dpf_key_pair = generateDPF (ucast (selected_item c)) 0 (ucast num_items)
                           (draw_seed0 c) (draw_seed1 c) (draw_mask c)
      in (\<lparr>user_index = selected_user c, item_share = item_share_p0,
           dpf_key = fst dpf_key_pair\<rparr>,
          \<lparr>user_index = selected_user c, item_share = item_share_p1,
           dpf_key = snd dpf_key_pair\<rparr>))"

definition cleartext_query :: "query_choice \<Rightarrow> u32 \<times> u32" where
  "cleartext_query c = (selected_user c, selected_item c)"

definition query_choice_ok :: "nat \<Rightarrow> nat \<Rightarrow> query_choice \<Rightarrow> bool" where
  "query_choice_ok num_users num_items c =
     (unat (selected_user c) < num_users \<and> unat (selected_item c) < num_items)"

section \<open>Query processing of the two servers (pB.cpp 173-227)\<close>

text \<open>
  The item update of one server for one feature (lines 216-220): the evaluation of
  the repaired key is added to the feature's column.
\<close>

definition add_to_column :: "nat \<Rightarrow> nat \<Rightarrow> i64 list \<Rightarrow> ShareMat \<Rightarrow> ShareMat" where
  "add_to_column num_items feat_idx dpf_evaluation_result item_matrix =
     fold (\<lambda>item_idx M.
             M[item_idx := (M ! item_idx)[feat_idx :=
                 M ! item_idx ! feat_idx + dpf_evaluation_result ! item_idx]])
       [0..<num_items] item_matrix"

definition item_update_masked :: "nat \<Rightarrow> ShareVec \<Rightarrow> DPFKey \<Rightarrow> i64 list" where
  "item_update_masked feature_dim update_vector dpf_key_share =
     map (\<lambda>feat_idx. masked_update (update_vector ! feat_idx) dpf_key_share) [0..<feature_dim]"

definition item_update ::
  "u32 \<Rightarrow> nat \<Rightarrow> ShareVec \<Rightarrow> DPFKey \<Rightarrow> i64 list \<Rightarrow> ShareMat \<Rightarrow> ShareMat" where
  "item_update num_items feature_dim update_vector dpf_key_share peer_masked item_matrix =
     fold (\<lambda>feat_idx M.
             add_to_column (unat num_items) feat_idx
               (EvalFull
                  (modified_key (update_vector ! feat_idx) dpf_key_share (peer_masked ! feat_idx))
                  (ucast num_items))
               M)
       [0..<feature_dim] item_matrix"

text \<open>
  One query, both servers in step.  Every value a server receives from the peer is the
  value the peer's run of the same code sends; \<open>ROLE\<close> is 0 in the first server and 1 in
  the second.  A state is the pair of a server's user matrix and item matrix.
\<close>

type_synonym server_state = "ShareMat \<times> ShareMat"

definition process_query_pair ::
  "u32 \<Rightarrow> u32 \<Rightarrow> server_state \<times> server_state \<Rightarrow> (Query \<times> Query) \<times> (query_material \<times> query_material)
     \<Rightarrow> server_state \<times> server_state" where
  "process_query_pair num_items feature_dim st inp =
     (let user_matrix0 = fst (fst st); item_matrix0 = snd (fst st);
          user_matrix1 = fst (snd st); item_matrix1 = snd (snd st);
          q0 = fst (fst inp); q1 = snd (fst inp);
          m0 = fst (snd inp); m1 = snd (snd inp);
          user_id0 = unat (user_index q0); user_id1 = unat (user_index q1);
          user_profile0 = user_matrix0 ! user_id0;
          user_profile1 = user_matrix1 ! user_id1;
          item_profiles = retrieve_item_profile_pair (item_share q0) item_matrix0
                            (item_share q1) item_matrix1 (lookup_mat m0, lookup_mat m1)
                            (lookup_dot_mats m0) (lookup_dot_mats m1);
          item_profile0 = fst item_profiles; item_profile1 = snd item_profiles;
          inner_products = secure_inner_product_pair user_profile0 item_profile0
                             user_profile1 item_profile1 (profile_dot_mat m0, profile_dot_mat m1);
          inner_product_share0 = fst inner_products; inner_product_share1 = snd inner_products;
          scaled = secure_scalar_vector_pair inner_product_share0 item_profile0
                     inner_product_share1 item_profile1 (scaled_mat m0, scaled_mat m1);
          user_matrix0' = user_matrix0[user_id0 :=
                            vec_sub (vec_add (user_matrix0 ! user_id0) item_profile0) (fst scaled)];
          user_matrix1' = user_matrix1[user_id1 :=
                            vec_sub (vec_add (user_matrix1 ! user_id1) item_profile1) (snd scaled)];
          complement_share0 = 0 - inner_product_share0;
          complement_share1 = 1 - inner_product_share1;
          updates = secure_scalar_vector_pair complement_share0 user_profile0
                      complement_share1 user_profile1 (update_mat m0, update_mat m1);
          sent0 = item_update_masked (unat feature_dim) (fst updates) (dpf_key q0);
          sent1 = item_update_masked (unat feature_dim) (snd updates) (dpf_key q1);
          item_matrix0' = item_update num_items (unat feature_dim) (fst updates) (dpf_key q0)
                            sent1 item_matrix0;
          item_matrix1' = item_update num_items (unat feature_dim) (snd updates) (dpf_key q1)
                            sent0 item_matrix1
      in ((user_matrix0', item_matrix0'), (user_matrix1', item_matrix1')))"

text \<open>Lines 231-258: what a server writes to its updated-matrix file.\<close>

definition saved_matrix :: "ShareMat \<Rightarrow> u32 \<Rightarrow> u32 \<Rightarrow> u32 list list" where
  "saved_matrix M rows cols =
     map (\<lambda>i. map (\<lambda>f. share_to_u32 (M ! i ! f)) [0..<unat cols]) [0..<unat rows]"

text \<open>
  \<open>execute_protocol\<close> of both servers over their query lists and the helper's
  materials, from the loaded shares to the saved ones: the saved U and V of server 0,
  then those of server 1.
\<close>

definition execute_protocol_pair ::
  "u32 \<Rightarrow> u32 \<Rightarrow> u32 \<Rightarrow> server_state \<times> server_state \<Rightarrow> (Query \<times> Query) list \<Rightarrow>
     (query_material \<times> query_material) list \<Rightarrow>
     (u32 list list \<times> u32 list list) \<times> (u32 list list \<times> u32 list list)" where
  "execute_protocol_pair num_users num_items feature_dim st queries materials =
     (let final = fold (\<lambda>inp s. process_query_pair num_items feature_dim s inp)
                    (zip queries materials) st
      in ((saved_matrix (fst (fst final)) num_users feature_dim,
           saved_matrix (snd (fst final)) num_items feature_dim),
          (saved_matrix (fst (snd final)) num_users feature_dim,
           saved_matrix (snd (snd final)) num_items feature_dim)))"

section \<open>Cleartext simulation (check\_correctness.cpp 79-152)\<close>

datatype checker_error = Dimension_mismatch | Size_mismatch | Index_out_of_bounds

definition recombine_shares :: "ShareMat \<Rightarrow> ShareMat \<Rightarrow> checker_error + ShareMat" where
  "recombine_shares M0 M1 =
     (if length M0 \<noteq> length M1 \<or> (length M0 > 0 \<and> length (M0 ! 0) \<noteq> length (M1 ! 0))
      then Inl Dimension_mismatch
      else (let rows = length M0; cols = (if rows > 0 then length (M0 ! 0) else 0)
            in Inr (map (\<lambda>i. map (\<lambda>j. M0 ! i ! j + M1 ! i ! j) [0..<cols]) [0..<rows])))"

definition dot_product :: "ShareVec \<Rightarrow> ShareVec \<Rightarrow> checker_error + i64" where
  "dot_product u v =
     (if length u \<noteq> length v then Inl Size_mismatch
      else Inr (foldl (\<lambda>dot i. dot + u ! i * v ! i) 0 [0..<length u]))"

definition apply_cleartext_update ::
  "ShareMat \<times> ShareMat \<Rightarrow> u32 \<times> u32 \<Rightarrow> checker_error + ShareMat \<times> ShareMat" where
  "apply_cleartext_update UV query =
     (let U = fst UV; V = snd UV;
          i_idx = unat (fst query); j_idx = unat (snd query)
      in if i_idx \<ge> length U \<or> j_idx \<ge> length V then Inl Index_out_of_bounds
         else (let ui = U ! i_idx; vj = V ! j_idx
               in case dot_product ui vj of
                    Inl e \<Rightarrow> Inl e
                  | Inr dot \<Rightarrow>
                      (let delta = 1 - dot;
                           user_update_term = map (\<lambda>f. vj ! f * delta) [0..<length vj];
                           U' = U[i_idx := map (\<lambda>f. U ! i_idx ! f + user_update_term ! f)
                                            [0..<length ui]];
                           item_update_term_M = map (\<lambda>f. ui ! f * delta) [0..<length ui];
                           V' = V[j_idx := map (\<lambda>f. V ! j_idx ! f + item_update_term_M ! f)
                                            [0..<length vj]]
                       in Inr (U', V'))))"

fun apply_cleartext_updates ::
  "ShareMat \<times> ShareMat \<Rightarrow> (u32 \<times> u32) list \<Rightarrow> checker_error + ShareMat \<times> ShareMat" where
  "apply_cleartext_updates UV [] = Inr UV"
| "apply_cleartext_updates UV (query # queries) =
     (case apply_cleartext_update UV query of
        Inl e \<Rightarrow> Inl e
      | Inr UV' \<Rightarrow> apply_cleartext_updates UV' queries)"

text \<open>
  Steps 1 to 3 of the checker's \<open>main\<close> (lines 188-218) and the conversion of the
  result (324-325): recombine the initial shares, run the cleartext updates, reduce to
  \<open>uint32_t\<close>.  An exception is the value \<open>Inl\<close>.
\<close>

definition cleartext_simulation ::
  "ShareMat \<Rightarrow> ShareMat \<Rightarrow> ShareMat \<Rightarrow> ShareMat \<Rightarrow> (u32 \<times> u32) list \<Rightarrow>
     checker_error + u32 list list \<times> u32 list list" where
  "cleartext_simulation U0 U1 V0 V1 queries =
     (case recombine_shares U0 U1 of
        Inl e \<Rightarrow> Inl e
      | Inr U_initial \<Rightarrow>
          (case recombine_shares V0 V1 of
             Inl e \<Rightarrow> Inl e
           | Inr V_initial \<Rightarrow>
               (case apply_cleartext_updates (U_initial, V_initial) queries of
                  Inl e \<Rightarrow> Inl e
                | Inr UV \<Rightarrow>
                    Inr (convert_to_uint32_matrix (fst UV), convert_to_uint32_matrix (snd UV)))))"

text \<open>Step 4 (lines 308-321): the servers' saved files, recombined in \<open>uint32_t\<close>.\<close>

definition mpc_recombined ::
  "nat \<Rightarrow> nat \<Rightarrow> nat \<Rightarrow> (u32 list list \<times> u32 list list) \<times> (u32 list list \<times> u32 list list) \<Rightarrow>
     u32 list list \<times> u32 list list" where
  "mpc_recombined m n k saved =
     (recombine_updated (fst (fst saved)) (fst (snd saved)) m k,
      recombine_updated (snd (fst saved)) (snd (snd saved)) n k)"

section \<open>Matrices of shares (used in the proofs)\<close>

definition mat_dims :: "nat \<Rightarrow> nat \<Rightarrow> ShareMat \<Rightarrow> bool" where
  "mat_dims rows cols M = (length M = rows \<and> list_all (\<lambda>row. length row = cols) M)"

definition mat_add :: "ShareMat \<Rightarrow> ShareMat \<Rightarrow> ShareMat" where
  "mat_add A B = map (\<lambda>i. vec_add (A ! i) (B ! i)) [0..<length A]"

section \<open>Concrete inputs of the worked instances\<close>

text \<open>
  A lookup at the rotation boundary: eight items with one feature, item index 0 shared
  as \<open>100 + (-100)\<close>, rotation index 7 shared as \<open>5 + 2\<close>, and the one-hot vector of 7
  split into a vector of ones and its complement.
\<close>

abbreviation (input) boundary_V0 :: ShareMat where
  "boundary_V0 \<equiv> [[10], [11], [12], [13], [14], [15], [16], [17]]"

abbreviation (input) boundary_V1 :: ShareMat where
  "boundary_V1 \<equiv> [[1], [1], [1], [1], [1], [1], [1], [1]]"

abbreviation (input) boundary_lm0 :: lookup_material where
  "boundary_lm0 \<equiv> \<lparr>rotation_base = 5, rotation_vector = [1, 1, 1, 1, 1, 1, 1, 1]\<rparr>"

abbreviation (input) boundary_lm1 :: lookup_material where
  "boundary_lm1 \<equiv>
     \<lparr>rotation_base = 2, rotation_vector = [- 1, - 1, - 1, - 1, - 1, - 1, - 1, 0]\<rparr>"

abbreviation (input) boundary_draws :: "dot_draw list" where
  "boundary_draws \<equiv>
     [([1, 2, 3, 4, 5, 6, 7, 8], [2, 2, 2, 2, 2, 2, 2, 2], [3, 3, 3, 3, 3, 3, 3, 3],
       [4, 4, 4, 4, 4, 4, 4, 4], 9)]"

text \<open>
  One query of user 0 for item 0 in a run with one user, two items and one feature,
  and the helper's draws for it.
\<close>

abbreviation (input) small_run_choice :: query_choice where
  "small_run_choice \<equiv>
     \<lparr>selected_user = 0, selected_item = 0, draw_item_share = 5,
      draw_seed0 = 0, draw_seed1 = 0, draw_mask = 0\<rparr>"

abbreviation (input) small_run_draws :: query_draws where
  "small_run_draws \<equiv>
     \<lparr>draw_random_index = 1, draw_r0_shares = [3, 4], draw_rotation_offset_share = 7,
      draw_lookup_dots = [([1, 2], [3, 4], [5, 6], [7, 8], 9)],
      draw_profile_dot = ([1], [2], [3], [4], 5),
      draw_scaled = (1, 2, [3], [4], [5]),
      draw_update = (6, 7, [8], [9], [10])\<rparr>"

chapter \<open>Properties\<close>

section \<open>Vector algebra\<close>

lemma length_vec_add [simp]: "length (vec_add a b) = length a"
  by (simp add: vec_add_def)

lemma length_vec_sub [simp]: "length (vec_sub a b) = length a"
  by (simp add: vec_sub_def)

lemma length_vec_scalar_mul [simp]: "length (vec_scalar_mul a s) = length a"
  by (simp add: vec_scalar_mul_def)

lemma nth_vec_add [simp]: "i < length a \<Longrightarrow> vec_add a b ! i = a ! i + b ! i"
  by (simp add: vec_add_def)

lemma nth_vec_sub [simp]: "i < length a \<Longrightarrow> vec_sub a b ! i = a ! i - b ! i"
  by (simp add: vec_sub_def)

lemma nth_vec_scalar_mul [simp]: "i < length a \<Longrightarrow> vec_scalar_mul a s ! i = a ! i * s"
  by (simp add: vec_scalar_mul_def)

lemma foldl_add_sum_list:
  "foldl (\<lambda>acc i. acc + f i) (z :: i64) xs = z + sum_list (map f xs)"
  by (induction xs arbitrary: z) (simp_all add: add.assoc)

lemma vec_dot_product_sum:
  "vec_dot_product a b = (\<Sum>i<length a. a ! i * b ! i)"
proof -
  have "vec_dot_product a b = sum_list (map (\<lambda>i. a ! i * b ! i) [0..<length a])"
    by (simp add: vec_dot_product_def foldl_add_sum_list)
  also have "\<dots> = (\<Sum>i<length a. a ! i * b ! i)"
    by (simp add: interv_sum_list_conv_sum_set_nat atLeast0LessThan)
  finally show ?thesis .
qed

lemma vec_dot_product_add_right:
  assumes "length b = length a"
  shows "vec_dot_product a (vec_add b c) = vec_dot_product a b + vec_dot_product a c"
  using assms by (simp add: vec_dot_product_sum distrib_left sum.distrib)

lemma vec_dot_product_add_left:
  assumes "length b = length a"
  shows "vec_dot_product (vec_add a b) c = vec_dot_product a c + vec_dot_product b c"
  using assms by (simp add: vec_dot_product_sum distrib_right sum.distrib)

lemma vec_dot_product_commute:
  assumes "length b = length a"
  shows "vec_dot_product a b = vec_dot_product b a"
  using assms by (simp add: vec_dot_product_sum mult.commute)

lemma vec_eqI:
  assumes "length a = length b" and "\<And>i. i < length a \<Longrightarrow> a ! i = b ! i"
  shows "a = b"
  using assms by (simp add: list_eq_iff_nth_eq)

lemma upt_0_2: "[0..<2] = [0, Suc 0]"
  by (simp add: upt_rec)

lemma vec_add_2: "vec_add [a, b] [c, d] = [a + c, b + d]"
  by (simp add: vec_add_def upt_0_2)

lemma vec_sub_2: "vec_sub [a, b] [c, d] = [a - c, b - d]"
  by (simp add: vec_sub_def upt_0_2)

lemma vec_scalar_mul_2: "vec_scalar_mul [a, b] s = [a * s, b * s]"
  by (simp add: vec_scalar_mul_def upt_0_2)

lemma vec_dot_product_2: "vec_dot_product [a, b] [c, d] = a * c + b * d"
  by (simp add: vec_dot_product_def upt_0_2)

section \<open>Secure dot product\<close>

lemma secure_inner_product_sum:
  assumes "length y0 = length x0" "length x1 = length x0" "length y1 = length x0"
    and "length X0 = length x0" "length Y0 = length x0"
    and "length X1 = length x0" "length Y1 = length x0"
  shows "compute_secure_inner_product x0 y0
           \<lparr>beaver_x_share = X0, beaver_y_share = Y0, beaver_c_share = vec_dot_product X0 Y1 + R\<rparr>
           (vec_add x1 X1, vec_add y1 Y1)
         + compute_secure_inner_product x1 y1
           \<lparr>beaver_x_share = X1, beaver_y_share = Y1, beaver_c_share = vec_dot_product X1 Y0 - R\<rparr>
           (vec_add x0 X0, vec_add y0 Y0)
         = vec_dot_product (vec_add x0 x1) (vec_add y0 y1)"
proof -
  have c1: "vec_dot_product Y0 x1 = vec_dot_product x1 Y0"
    using assms by (simp add: vec_dot_product_commute)
  have c2: "vec_dot_product Y1 x0 = vec_dot_product x0 Y1"
    using assms by (simp add: vec_dot_product_commute)
  have c3: "vec_dot_product Y0 X1 = vec_dot_product X1 Y0"
    using assms by (simp add: vec_dot_product_commute)
  have c4: "vec_dot_product Y1 X0 = vec_dot_product X0 Y1"
    using assms by (simp add: vec_dot_product_commute)
  show ?thesis
    using assms
    by (simp add: compute_secure_inner_product_def vec_dot_product_add_right
        vec_dot_product_add_left c1 c2 c3 c4)
qed

text \<open>
  C5.  For shared vectors \<open>x = x0 + x1\<close> and \<open>y = y0 + y1\<close> of equal length and the
  material the helper derives from any draws \<open>X0, Y0, X1, Y1, R\<close> of that length
  (\<open>C0 = <X0, Y1> + R\<close>, \<open>C1 = <X1, Y0> - R\<close>), the outputs of the two servers add up to
  the inner product of \<open>x\<close> and \<open>y\<close>, the sum of \<open>(x0[i] + x1[i]) * (y0[i] + y1[i])\<close> over
  all positions \<open>i\<close>, in wrap-around \<open>int64_t\<close> arithmetic.
\<close>

theorem secure_dot_product_correct:
  assumes "length y0 = length x0" "length x1 = length x0" "length y1 = length x0"
    and "length X0 = length x0" "length Y0 = length x0"
    and "length X1 = length x0" "length Y1 = length x0"
    and "secure_inner_product_pair x0 y0 x1 y1
           (generate_dot_product_material X0 Y0 X1 Y1 R) = (z0, z1)"
  shows "z0 + z1 = (\<Sum>i<length x0. (x0 ! i + x1 ! i) * (y0 ! i + y1 ! i))"
proof -
  have "z0 = compute_secure_inner_product x0 y0
           \<lparr>beaver_x_share = X0, beaver_y_share = Y0, beaver_c_share = vec_dot_product X0 Y1 + R\<rparr>
           (vec_add x1 X1, vec_add y1 Y1)"
    and "z1 = compute_secure_inner_product x1 y1
           \<lparr>beaver_x_share = X1, beaver_y_share = Y1, beaver_c_share = vec_dot_product X1 Y0 - R\<rparr>
           (vec_add x0 X0, vec_add y0 Y0)"
    using assms(8)
    by (simp_all add: secure_inner_product_pair_def generate_dot_product_material_def
        inner_product_masked_def)
  then have "z0 + z1 = vec_dot_product (vec_add x0 x1) (vec_add y0 y1)"
    using secure_inner_product_sum [OF assms(1-7)] by simp
  also have "\<dots> = (\<Sum>i<length x0. (x0 ! i + x1 ! i) * (y0 ! i + y1 ! i))"
    using assms(1) by (simp add: vec_dot_product_sum)
  finally show ?thesis .
qed

theorem secure_dot_product_correct_witness:
  "secure_inner_product_pair [1, 2] [3, 4] [5, 6] [7, 8]
       (generate_dot_product_material [10, 11] [12, 13] [14, 15] [16, 17] 9)
     = (- 61, 217)
   \<and> (- 61 :: i64) + 217 = 156
   \<and> (\<Sum>i<length [1 :: i64, 2]. ([1, 2] ! i + [5, 6] ! i) * ([3, 4] ! i + [7, 8] ! i))
       = (156 :: i64)"
  using secure_dot_product_correct
    [where ?x0.0 = "[1, 2]" and ?y0.0 = "[3, 4]" and ?x1.0 = "[5, 6]" and ?y1.0 = "[7, 8]"
       and ?X0.0 = "[10, 11]" and ?Y0.0 = "[12, 13]" and ?X1.0 = "[14, 15]"
       and ?Y1.0 = "[16, 17]" and R = 9 and ?z0.0 = "- 61" and ?z1.0 = 217]
  by (simp add: secure_inner_product_pair_def generate_dot_product_material_def
      inner_product_masked_def compute_secure_inner_product_def vec_dot_product_2 vec_add_2
      lessThan_Suc numeral_2_eq_2)

section \<open>Secure scalar-vector product\<close>

lemma secure_scalar_vector_sum:
  assumes "length v1 = length v0" "length B0 = length v0" "length B1 = length v0"
    and "length Rv = length v0"
  shows "vec_add
           (compute_secure_scalar_vector_product a0 v0
              \<lparr>beaver_scalar_share = A0, beaver_vector_share = B0,
               beaver_result_share = vec_add (vec_scalar_mul B0 A1) Rv\<rparr>
              (a1 + A1, vec_add v1 B1))
           (compute_secure_scalar_vector_product a1 v1
              \<lparr>beaver_scalar_share = A1, beaver_vector_share = B1,
               beaver_result_share = vec_sub (vec_scalar_mul B1 A0) Rv\<rparr>
              (a0 + A0, vec_add v0 B0))
         = vec_scalar_mul (vec_add v0 v1) (a0 + a1)"
proof (rule vec_eqI)
  show "length (vec_add
           (compute_secure_scalar_vector_product a0 v0
              \<lparr>beaver_scalar_share = A0, beaver_vector_share = B0,
               beaver_result_share = vec_add (vec_scalar_mul B0 A1) Rv\<rparr>
              (a1 + A1, vec_add v1 B1))
           (compute_secure_scalar_vector_product a1 v1
              \<lparr>beaver_scalar_share = A1, beaver_vector_share = B1,
               beaver_result_share = vec_sub (vec_scalar_mul B1 A0) Rv\<rparr>
              (a0 + A0, vec_add v0 B0)))
        = length (vec_scalar_mul (vec_add v0 v1) (a0 + a1))"
    by (simp add: compute_secure_scalar_vector_product_def)
next
  fix i
  assume "i < length (vec_add
           (compute_secure_scalar_vector_product a0 v0
              \<lparr>beaver_scalar_share = A0, beaver_vector_share = B0,
               beaver_result_share = vec_add (vec_scalar_mul B0 A1) Rv\<rparr>
              (a1 + A1, vec_add v1 B1))
           (compute_secure_scalar_vector_product a1 v1
              \<lparr>beaver_scalar_share = A1, beaver_vector_share = B1,
               beaver_result_share = vec_sub (vec_scalar_mul B1 A0) Rv\<rparr>
              (a0 + A0, vec_add v0 B0)))"
  then have i: "i < length v0"
    by (simp add: compute_secure_scalar_vector_product_def)
  with assms show "vec_add
           (compute_secure_scalar_vector_product a0 v0
              \<lparr>beaver_scalar_share = A0, beaver_vector_share = B0,
               beaver_result_share = vec_add (vec_scalar_mul B0 A1) Rv\<rparr>
              (a1 + A1, vec_add v1 B1))
           (compute_secure_scalar_vector_product a1 v1
              \<lparr>beaver_scalar_share = A1, beaver_vector_share = B1,
               beaver_result_share = vec_sub (vec_scalar_mul B1 A0) Rv\<rparr>
              (a0 + A0, vec_add v0 B0)) ! i
        = vec_scalar_mul (vec_add v0 v1) (a0 + a1) ! i"
    by (simp add: compute_secure_scalar_vector_product_def algebra_simps)
qed

text \<open>
  C6.  For a shared scalar \<open>a = a0 + a1\<close>, a shared vector \<open>v = v0 + v1\<close> and the
  material the helper derives from any draws \<open>A0, A1, B0, B1, Rv\<close> of matching length
  (\<open>C0 = A1 * B0 + Rv\<close>, \<open>C1 = A0 * B1 - Rv\<close>), the output vectors of the two servers
  have the length of \<open>v\<close> and add up element-wise to \<open>a * v\<close>: at every position \<open>i\<close>
  the two entries add up to \<open>(v0[i] + v1[i]) * (a0 + a1)\<close>, in wrap-around \<open>int64_t\<close>
  arithmetic.
\<close>

theorem secure_scalar_vector_product_correct:
  assumes "length v1 = length v0" "length B0 = length v0" "length B1 = length v0"
    and "length Rv = length v0"
    and "secure_scalar_vector_pair a0 v0 a1 v1
           (generate_scalar_vector_material A0 A1 B0 B1 Rv) = (w0, w1)"
  shows "length w0 = length v0 \<and> length w1 = length v0
    \<and> (\<forall>i<length v0. w0 ! i + w1 ! i = (v0 ! i + v1 ! i) * (a0 + a1))"
proof -
  have w: "w0 = compute_secure_scalar_vector_product a0 v0
              \<lparr>beaver_scalar_share = A0, beaver_vector_share = B0,
               beaver_result_share = vec_add (vec_scalar_mul B0 A1) Rv\<rparr>
              (a1 + A1, vec_add v1 B1)"
     "w1 = compute_secure_scalar_vector_product a1 v1
              \<lparr>beaver_scalar_share = A1, beaver_vector_share = B1,
               beaver_result_share = vec_sub (vec_scalar_mul B1 A0) Rv\<rparr>
              (a0 + A0, vec_add v0 B0)"
    using assms(5)
    by (simp_all add: secure_scalar_vector_pair_def generate_scalar_vector_material_def
        scalar_vector_masked_def)
  have len: "length w0 = length v0" "length w1 = length v0"
    using assms(1) by (simp_all add: w compute_secure_scalar_vector_product_def)
  have sum: "vec_add w0 w1 = vec_scalar_mul (vec_add v0 v1) (a0 + a1)"
    using secure_scalar_vector_sum [OF assms(1-4)] by (simp add: w)
  have "w0 ! i + w1 ! i = (v0 ! i + v1 ! i) * (a0 + a1)" if i: "i < length v0" for i
  proof -
    have "w0 ! i + w1 ! i = vec_add w0 w1 ! i"
      using i len by simp
    also have "\<dots> = vec_scalar_mul (vec_add v0 v1) (a0 + a1) ! i"
      by (simp only: sum)
    also have "\<dots> = (v0 ! i + v1 ! i) * (a0 + a1)"
      using i by simp
    finally show ?thesis .
  qed
  with len show ?thesis by simp
qed

theorem secure_scalar_vector_product_correct_witness:
  "secure_scalar_vector_pair 3 [1, 2] 4 [5, 6]
       (generate_scalar_vector_material 7 8 [9, 10] [11, 12] [13, 14])
     = ([28, 34], [14, 22])
   \<and> [28 + 14, 34 + 22] = [42, 56 :: i64]
   \<and> [(1 + 5) * (3 + 4), (2 + 6) * (3 + 4)] = [42, 56 :: i64]"
  using secure_scalar_vector_product_correct
    [where ?a0.0 = 3 and ?v0.0 = "[1, 2]" and ?a1.0 = 4 and ?v1.0 = "[5, 6]"
       and ?A0.0 = 7 and ?A1.0 = 8 and ?B0.0 = "[9, 10]" and ?B1.0 = "[11, 12]"
       and Rv = "[13, 14]" and ?w0.0 = "[28, 34]" and ?w1.0 = "[14, 22]"]
  by (simp add: secure_scalar_vector_pair_def generate_scalar_vector_material_def
      scalar_vector_masked_def compute_secure_scalar_vector_product_def vec_add_2 vec_sub_2
      vec_scalar_mul_2)

section \<open>Matrix persistence\<close>

lemma digit_value_digit_char:
  assumes "d < 10"
  shows "digit_value (digit_char d) = d"
proof -
  from assms consider "d = 0" | "d = 1" | "d = 2" | "d = 3" | "d = 4"
    | "d = 5" | "d = 6" | "d = 7" | "d = 8" | "d = 9"
    by atomize_elim presburger
  then show ?thesis
    by cases (simp_all add: digit_value_def digit_char_def)
qed

lemma parse_print_decimal: "parse_decimal (print_decimal n) = n"
proof (induction n rule: print_decimal.induct)
  case (1 n)
  show ?case
  proof (cases "n < 10")
    case True
    then show ?thesis
      by (subst print_decimal.simps) (simp add: parse_decimal_def digit_value_digit_char)
  next
    case False
    then have "parse_decimal (print_decimal (n div 10)) = n div 10"
      using 1 by simp
    with False show ?thesis
      by (subst print_decimal.simps) (simp add: parse_decimal_def digit_value_digit_char)
  qed
qed

lemma read_print_u32: "read_u32 (print_u32 val) = val"
proof -
  have "unat val < 2 ^ 32"
    using unsigned_less [of val] by simp
  then have "\<not> unat val > 4294967295"
    by simp
  then show ?thesis
    by (simp add: read_u32_def print_u32_def parse_print_decimal)
qed

lemma load_save_share_value:
  "load_share_value (save_share_value x) = u32_to_share (share_to_u32 x)"
  by (simp add: load_share_value_def save_share_value_def read_print_u32)

lemma share_to_u32_to_share: "share_to_u32 (u32_to_share (share_to_u32 x)) = share_to_u32 x"
  unfolding u32_to_share_def share_to_u32_def
  by (rule bit_word_eqI) (auto simp add: bit_simps)

lemma sint_u32_to_share: "sint (u32_to_share (share_to_u32 x)) = signed_take_bit 31 (sint x)"
  unfolding u32_to_share_def share_to_u32_def
  by (rule bit_eqI) (auto simp add: bit_simps min_def)

lemma u32_to_share_exact:
  assumes "- (2 ^ 31) \<le> sint x" "sint x < 2 ^ 31"
  shows "u32_to_share (share_to_u32 x) = x"
proof -
  have "signed_take_bit 31 (sint x) = sint x"
    using assms by (intro signed_take_bit_int_eq_self) simp_all
  then have "sint (u32_to_share (share_to_u32 x)) = sint x"
    by (simp add: sint_u32_to_share)
  then show ?thesis
    by (rule signed_word_eqI)
qed

lemma uint_share_to_u32: "uint (share_to_u32 x) = uint x mod 2 ^ 32"
  by (simp add: share_to_u32_def unsigned_ucast_eq take_bit_eq_mod)

text \<open>
  C8.  Saving a share (low 32 bits, printed as an unsigned decimal) and loading the text
  back (parsed as \<open>uint32_t\<close>, read as \<open>int32_t\<close>, sign-extended) gives a value
  congruent to the share modulo \<open>2^32\<close>, and the share itself when it lies in
  \<open>[-2^31, 2^31)\<close>.
\<close>

theorem matrix_value_round_trip:
  "uint (load_share_value (save_share_value x)) mod 2 ^ 32 = uint x mod 2 ^ 32
   \<and> (- (2 ^ 31) \<le> sint x \<and> sint x < 2 ^ 31 \<longrightarrow> load_share_value (save_share_value x) = x)"
proof
  have "uint (share_to_u32 (u32_to_share (share_to_u32 x))) = uint (share_to_u32 x)"
    by (simp add: share_to_u32_to_share)
  then show "uint (load_share_value (save_share_value x)) mod 2 ^ 32 = uint x mod 2 ^ 32"
    by (simp add: uint_share_to_u32 load_save_share_value)
next
  show "- (2 ^ 31) \<le> sint x \<and> sint x < 2 ^ 31 \<longrightarrow> load_share_value (save_share_value x) = x"
    by (simp add: load_save_share_value u32_to_share_exact)
qed

lemma save_share_value_minus_5: "save_share_value (- 5) = ''4294967291''"
  by (simp add: save_share_value_def share_to_u32_def print_u32_def print_decimal.simps
      digit_char_def)

theorem matrix_value_round_trip_witness:
  "save_share_value (- 5) = ''4294967291'' \<and> load_share_value ''4294967291'' = - 5"
  using matrix_value_round_trip [of "- 5"] by (simp add: save_share_value_minus_5)

section \<open>Order of sends and receives\<close>

theorem role_zero_receives_first_counterexample:
  "\<not> role_parity 0 (scalar_vector_peer_events 0)"
  by (simp add: role_parity_def scalar_vector_peer_events_def sends_then_receives_def)

text \<open>
  C7, amended.  In every exchange on the peer link, and so over a whole query, the two
  roles run mirrored sequences: each send of one server meets a receive of the other.  Role 0 sends
  first and role 1 receives first in \<open>exchange_value\<close>, in the oblivious lookup and in
  the secure dot product; in the secure scalar-vector product and in the FCW-repair
  loop the order is the opposite one: role 1 sends first and role 0 receives first.
\<close>

theorem peer_link_order:
  "map mirrored (exchange_value_events 0) = exchange_value_events 1
   \<and> map mirrored (lookup_peer_events 0) = lookup_peer_events 1
   \<and> map mirrored (inner_product_peer_events 0) = inner_product_peer_events 1
   \<and> map mirrored (scalar_vector_peer_events 0) = scalar_vector_peer_events 1
   \<and> map mirrored (fcw_repair_peer_events 0) = fcw_repair_peer_events 1
   \<and> map mirrored (query_peer_events 0 feature_dim) = query_peer_events 1 feature_dim
   \<and> sends_then_receives (exchange_value_events 0)
   \<and> receives_then_sends (exchange_value_events 1)
   \<and> sends_then_receives (lookup_peer_events 0)
   \<and> receives_then_sends (lookup_peer_events 1)
   \<and> sends_then_receives (inner_product_peer_events 0)
   \<and> receives_then_sends (inner_product_peer_events 1)
   \<and> receives_then_sends (scalar_vector_peer_events 0)
   \<and> sends_then_receives (scalar_vector_peer_events 1)
   \<and> receives_then_sends (fcw_repair_peer_events 0)
   \<and> sends_then_receives (fcw_repair_peer_events 1)"
  by (simp add: exchange_value_events_def lookup_peer_events_def inner_product_peer_events_def
      scalar_vector_peer_events_def fcw_repair_peer_events_def sends_then_receives_def
      receives_then_sends_def query_peer_events_def map_concat)

section \<open>Correctness checker\<close>

lemma fold_compare_entry_ok:
  "fst (fold (compare_entry name mpc cleartext) ps st)
     = (fst st \<and> (\<forall>p\<in>set ps. mpc ! fst p ! snd p = cleartext ! fst p ! snd p))"
  by (induction ps arbitrary: st) (auto simp add: compare_entry_def Let_def)

lemma compare_matrix_ok:
  "fst (compare_matrix name mpc cleartext rows cols)
     = (\<forall>i<rows. \<forall>f<cols. mpc ! i ! f = cleartext ! i ! f)"
  by (auto simp add: compare_matrix_def fold_compare_entry_ok)

lemma fold_compare_entry_printed:
  assumes "length (snd (snd st)) = min (nat (fst (snd st))) 10" "0 \<le> fst (snd st)"
  shows "length (snd (snd (fold (compare_entry name mpc cleartext) ps st)))
           = min (nat (fst (snd (fold (compare_entry name mpc cleartext) ps st)))) 10
         \<and> 0 \<le> fst (snd (fold (compare_entry name mpc cleartext) ps st))"
  using assms
proof (induction ps arbitrary: st)
  case Nil
  then show ?case by simp
next
  case (Cons p ps)
  have "length (snd (snd (compare_entry name mpc cleartext p st)))
          = min (nat (fst (snd (compare_entry name mpc cleartext p st)))) 10
        \<and> 0 \<le> fst (snd (compare_entry name mpc cleartext p st))"
    using Cons.prems
    by (auto simp add: compare_entry_def Let_def MAX_ERRORS_TO_PRINT_def min_def)
  then show ?case
    using Cons.IH [of "compare_entry name mpc cleartext p st"] by simp
qed

lemma compare_matrix_printed:
  "length (snd (snd (compare_matrix name mpc cleartext rows cols))) \<le> 10"
  using fold_compare_entry_printed [of "(True, 0, [])" name mpc cleartext
      "List.product [0..<rows] [0..<cols]"]
  by (simp add: compare_matrix_def)

lemma checker_exit_code:
  "exit_code (checker_compare m n k U_mpc U_clear V_mpc V_clear)
     = (if (\<forall>i<m. \<forall>f<k. U_mpc ! i ! f = U_clear ! i ! f)
           \<and> (\<forall>j<n. \<forall>f<k. V_mpc ! j ! f = V_clear ! j ! f) then 0 else 1)"
  by (simp add: checker_compare_def Let_def compare_matrix_ok)

lemma checker_printed_bound:
  "length (printed_reports (checker_compare m n k U_mpc U_clear V_mpc V_clear)) \<le> 20"
  using compare_matrix_printed [of "''U''" U_mpc U_clear m k]
    compare_matrix_printed [of "''V''" V_mpc V_clear n k]
  by (simp add: checker_compare_def Let_def)

lemma upt_0_3: "[0..<3] = [0, Suc 0, 2]"
  by (simp add: upt_rec)

text \<open>
  C9 at a concrete input.  With six mismatching entries in U and six in V the checker
  exits with code 1, prints all twelve reports, and its summary says that only the
  first 10 errors are shown.
\<close>

theorem checker_prints_twelve_reports:
  "length (printed_reports (checker_compare 2 2 3
      [[1, 1, 1], [1, 1, 1]] [[0, 0, 0], [0, 0, 0]]
      [[1, 1, 1], [1, 1, 1]] [[0, 0, 0], [0, 0, 0]])) = 12
   \<and> exit_code (checker_compare 2 2 3
      [[1, 1, 1], [1, 1, 1]] [[0, 0, 0], [0, 0, 0]]
      [[1, 1, 1], [1, 1, 1]] [[0, 0, 0], [0, 0, 0]]) = 1
   \<and> summary_lines (checker_compare 2 2 3
      [[1, 1, 1], [1, 1, 1]] [[0, 0, 0], [0, 0, 0]]
      [[1, 1, 1], [1, 1, 1]] [[0, 0, 0], [0, 0, 0]])
     = [''   FAILURE: MPC result does NOT match.'',
        ''   U matrix errors: 6 mismatches'',
        ''   V matrix errors: 6 mismatches'',
        ''   (Only first 10 errors shown above)'']"
  by (simp add: checker_compare_def compare_matrix_def compare_entry_def upt_0_2 upt_0_3
      MAX_ERRORS_TO_PRINT_def print_decimal.simps digit_char_def)

section \<open>Distributed point function\<close>

lemma evalDPF_level_step:
  "evalDPF_level key index depth i st = eval_step (cws key ! i) (bit index (depth - 1 - i)) st"
  by (simp add: evalDPF_level_def eval_step_def Let_def)

lemma length_path_bits [simp]: "length (path_bits index depth) = depth"
  by (simp add: path_bits_def)

lemma nth_path_bits: "i < depth \<Longrightarrow> path_bits index depth ! i = bit index (depth - 1 - i)"
  by (simp add: path_bits_def)

lemma fold_evalDPF_level:
  assumes "depth \<le> length (cws key)"
  shows "fold (evalDPF_level key index depth) [i..<depth] st
           = eval_path (drop i (take depth (cws key))) (drop i (path_bits index depth)) st"
  using assms
proof (induction "depth - i" arbitrary: i st)
  case 0
  then show ?case by simp
next
  case (Suc k)
  then have i: "i < depth" by simp
  have w: "drop i (take depth (cws key)) = cws key ! i # drop (Suc i) (take depth (cws key))"
    using i Suc.prems by (simp add: Cons_nth_drop_Suc [symmetric])
  have b: "drop i (path_bits index depth)
             = bit index (depth - 1 - i) # drop (Suc i) (path_bits index depth)"
    using i by (simp add: Cons_nth_drop_Suc [symmetric] nth_path_bits)
  have "k = depth - Suc i" using Suc.hyps(2) by simp
  then have IH: "\<And>st. fold (evalDPF_level key index depth) [Suc i..<depth] st
           = eval_path (drop (Suc i) (take depth (cws key))) (drop (Suc i) (path_bits index depth)) st"
    using Suc.hyps(1) Suc.prems by simp
  show ?case
    using i by (simp add: upt_conv_Cons IH w b evalDPF_level_step)
qed

lemma generateDPF_level_step:
  "generateDPF_level index depth i st =
     (let b = bit index (depth - 1 - i);
          p0 = (s0_curr st, f0_curr st); p1 = (s1_curr st, f1_curr st);
          cw = path_word b p0 p1
      in \<lparr>s0_curr = fst (eval_step cw b p0), s1_curr = fst (eval_step cw b p1),
          f0_curr = snd (eval_step cw b p0), f1_curr = snd (eval_step cw b p1),
          gen_cws = gen_cws st @ [cw]\<rparr>)"
  by (simp add: generateDPF_level_def eval_step_def path_word_def Let_def)

lemma fold_generateDPF_level:
  "fold (generateDPF_level index depth) [i..<depth] st =
     (let bs = drop i (path_bits index depth);
          p0 = (s0_curr st, f0_curr st); p1 = (s1_curr st, f1_curr st);
          ws = gen_words bs p0 p1
      in \<lparr>s0_curr = fst (eval_path ws bs p0), s1_curr = fst (eval_path ws bs p1),
          f0_curr = snd (eval_path ws bs p0), f1_curr = snd (eval_path ws bs p1),
          gen_cws = gen_cws st @ ws\<rparr>)"
proof (induction "depth - i" arbitrary: i st)
  case 0
  then show ?case by simp
next
  case (Suc k)
  then have i: "i < depth" by simp
  have b: "drop i (path_bits index depth)
             = bit index (depth - 1 - i) # drop (Suc i) (path_bits index depth)"
    using i by (simp add: Cons_nth_drop_Suc [symmetric] nth_path_bits)
  have "k = depth - Suc i" using Suc.hyps(2) by simp
  note IH = Suc.hyps(1) [OF this]
  show ?case
    using i by (simp add: upt_conv_Cons IH b generateDPF_level_step Let_def)
qed

lemma length_gen_words [simp]: "length (gen_words bs p0 p1) = length bs"
  by (induction bs arbitrary: p0 p1) simp_all

lemma step_flags_differ:
  assumes "snd p0 \<noteq> snd p1"
  shows "snd (eval_step (path_word b p0 p1) b p0) \<noteq> snd (eval_step (path_word b p0 p1) b p1)"
  using assms by (cases b) (auto simp add: eval_step_def path_word_def Let_def)

lemma step_off_path_equal:
  assumes "snd p0 \<noteq> snd p1"
  shows "eval_step (path_word b p0 p1) (\<not> b) p0 = eval_step (path_word b p0 p1) (\<not> b) p1"
  using assms by (cases b) (auto simp add: eval_step_def path_word_def Let_def xor.left_commute)

lemma gen_words_on_path:
  assumes "snd p0 \<noteq> snd p1"
  shows "snd (eval_path (gen_words bs p0 p1) bs p0) \<noteq> snd (eval_path (gen_words bs p0 p1) bs p1)"
  using assms
proof (induction bs arbitrary: p0 p1)
  case Nil
  then show ?case by simp
next
  case (Cons b bs)
  show ?case
    using Cons.IH [OF step_flags_differ [OF Cons.prems, of b]] by simp
qed

lemma gen_words_off_path:
  assumes "snd p0 \<noteq> snd p1" "length ts = length bs" "ts \<noteq> bs"
  shows "eval_path (gen_words bs p0 p1) ts p0 = eval_path (gen_words bs p0 p1) ts p1"
  using assms
proof (induction bs arbitrary: p0 p1 ts)
  case Nil
  then show ?case by simp
next
  case (Cons b bs)
  then obtain t ts' where ts: "ts = t # ts'" and len: "length ts' = length bs"
    by (cases ts) auto
  show ?case
  proof (cases "t = b")
    case True
    then have "ts' \<noteq> bs" using Cons.prems(3) ts by simp
    then show ?thesis
      using Cons.IH [OF step_flags_differ [OF Cons.prems(1), of b] len] ts True by simp
  next
    case False
    then have "t = (\<not> b)" by auto
    then show ?thesis
      using step_off_path_equal [OF Cons.prems(1), of b] ts by simp
  qed
qed

lemma ceil_log2_bound: "n \<le> 2 ^ ceil_log2 n"
proof (induction n rule: ceil_log2.induct)
  case (1 n)
  show ?case
  proof (cases "n \<le> 1")
    case True
    then show ?thesis by (subst ceil_log2.simps) simp
  next
    case False
    then have "(n + 1) div 2 \<le> 2 ^ ceil_log2 ((n + 1) div 2)"
      using 1 by simp
    then have "n \<le> 2 * 2 ^ ceil_log2 ((n + 1) div 2)"
      by linarith
    with False show ?thesis by (subst ceil_log2.simps) simp
  qed
qed

lemma dpf_depth_bound: "unat domain_size \<le> 2 ^ dpf_depth domain_size"
proof (cases "domain_size = 0")
  case True
  then show ?thesis by (simp add: dpf_depth_def)
next
  case False
  have "unat domain_size \<le> 2 ^ ceil_log2 (unat domain_size)"
    by (rule ceil_log2_bound)
  moreover have "ceil_log2 (unat domain_size) = 0 \<Longrightarrow> unat domain_size \<le> 2"
    using ceil_log2_bound [of "unat domain_size"] by simp
  ultimately show ?thesis
    using False by (auto simp add: dpf_depth_def Let_def)
qed

lemma dpf_depth_pos: "0 < dpf_depth domain_size"
  by (simp add: dpf_depth_def Let_def)

lemma path_bits_inject:
  assumes "unat t < 2 ^ depth" "unat j < 2 ^ depth" "path_bits t depth = path_bits j depth"
  shows "t = j"
proof (rule bit_word_eqI)
  fix k
  assume "k < LENGTH(64)"
  show "bit t k = bit j k"
  proof (cases "k < depth")
    case True
    then have "depth - 1 - k < depth" "depth - 1 - (depth - 1 - k) = k"
      by simp_all
    then show ?thesis
      using nth_path_bits [of "depth - 1 - k" depth t] nth_path_bits [of "depth - 1 - k" depth j]
        assms(3) by simp
  next
    case False
    have "take_bit depth (unat t) = unat t" "take_bit depth (unat j) = unat j"
      using assms(1,2) by (simp_all add: take_bit_nat_eq_self)
    then have "\<not> bit (unat t) k" "\<not> bit (unat j) k"
      using False by (metis bit_take_bit_iff)+
    then show ?thesis
      by (simp add: bit_unsigned_iff)
  qed
qed

lemma scast_key_sign: "(scast (key_sign f) :: i64) = (if f then 1 else - 1)"
  by (simp add: key_sign_def)

lemma generateDPF_loop_path:
  "generateDPF_loop index domain_size draw_s0 draw_s1 =
     (let bs = path_bits index (dpf_depth domain_size);
          p0 = (ucast draw_s0, False); p1 = (ucast draw_s1, True);
          ws = gen_words bs p0 p1
      in \<lparr>s0_curr = fst (eval_path ws bs p0), s1_curr = fst (eval_path ws bs p1),
          f0_curr = snd (eval_path ws bs p0), f1_curr = snd (eval_path ws bs p1),
          gen_cws = ws\<rparr>)"
  by (simp add: generateDPF_loop_def fold_generateDPF_level [where i = 0] Let_def)

lemma generateDPF_path:
  "generateDPF index val domain_size draw_s0 draw_s1 draw_R =
     (let bs = path_bits index (dpf_depth domain_size);
          p0 = (ucast draw_s0, False); p1 = (ucast draw_s1, True);
          ws = gen_words bs p0 p1;
          e0 = eval_path ws bs p0; e1 = eval_path ws bs p1
      in (\<lparr>s_root = ucast draw_s0, f_root = False, cws = ws,
           FCW = scast draw_R + scast (key_sign (snd e0)) * fst e0, sign = key_sign (snd e0)\<rparr>,
          \<lparr>s_root = ucast draw_s1, f_root = True, cws = ws,
           FCW = (val - scast draw_R) + scast (key_sign (snd e1)) * fst e1,
           sign = key_sign (snd e1)\<rparr>))"
  by (simp add: generateDPF_def generateDPF_loop_path Let_def)

lemma evalDPF_path:
  assumes "length (cws key) = dpf_depth domain_size"
  shows "evalDPF key index domain_size =
     (let st = eval_path (cws key) (path_bits index (dpf_depth domain_size)) (s_root key, f_root key)
      in (if snd st then fst st + FCW key else fst st) * scast (sign key))"
  using assms by (simp add: evalDPF_def fold_evalDPF_level [where i = 0] Let_def)

lemma dpf_repaired_sum:
  assumes gen: "generateDPF j v n draw_s0 draw_s1 draw_R = (k0, k1)"
    and t: "t < n" and j: "j < n"
  shows "evalDPF (modified_key d0 k0 (masked_update d1 k1)) t n
         + evalDPF (modified_key d1 k1 (masked_update d0 k0)) t n
         = (if t = j then d0 + d1 - v else 0)"
proof -
  define depth where "depth = dpf_depth n"
  define bs where "bs = path_bits j depth"
  define p0 :: "u64 \<times> bool" where "p0 = (ucast draw_s0, False)"
  define p1 :: "u64 \<times> bool" where "p1 = (ucast draw_s1, True)"
  define ws where "ws = gen_words bs p0 p1"
  define e0 where "e0 = eval_path ws bs p0"
  define e1 where "e1 = eval_path ws bs p1"
  have k0: "k0 = \<lparr>s_root = ucast draw_s0, f_root = False, cws = ws,
           FCW = scast draw_R + scast (key_sign (snd e0)) * fst e0, sign = key_sign (snd e0)\<rparr>"
    and k1: "k1 = \<lparr>s_root = ucast draw_s1, f_root = True, cws = ws,
           FCW = (v - scast draw_R) + scast (key_sign (snd e1)) * fst e1,
           sign = key_sign (snd e1)\<rparr>"
    using gen
    by (simp_all add: generateDPF_path Let_def depth_def bs_def p0_def p1_def ws_def e0_def e1_def)
  have len: "length ws = depth"
    by (simp add: ws_def bs_def)
  have flags: "snd p0 \<noteq> snd p1"
    by (simp add: p0_def p1_def)
  have diff: "snd e0 \<noteq> snd e1"
    unfolding e0_def e1_def ws_def by (rule gen_words_on_path [OF flags])
  define fcw' where "fcw' = (d0 - FCW k0) + (d1 - FCW k1)"
  have m0: "modified_key d0 k0 (masked_update d1 k1) = k0\<lparr>FCW := fcw'\<rparr>"
    and m1: "modified_key d1 k1 (masked_update d0 k0) = k1\<lparr>FCW := fcw'\<rparr>"
    by (simp_all add: modified_key_def masked_update_def fcw'_def)
  define ts where "ts = path_bits t depth"
  have ev0: "evalDPF (k0\<lparr>FCW := fcw'\<rparr>) t n
      = (if snd (eval_path ws ts p0) then fst (eval_path ws ts p0) + fcw' else fst (eval_path ws ts p0))
        * scast (key_sign (snd e0))"
    using len by (simp add: evalDPF_path k0 depth_def ts_def p0_def Let_def)
  have ev1: "evalDPF (k1\<lparr>FCW := fcw'\<rparr>) t n
      = (if snd (eval_path ws ts p1) then fst (eval_path ws ts p1) + fcw' else fst (eval_path ws ts p1))
        * scast (key_sign (snd e1))"
    using len by (simp add: evalDPF_path k1 depth_def ts_def p1_def Let_def)
  show ?thesis
  proof (cases "t = j")
    case True
    then have "ts = bs" by (simp add: ts_def bs_def)
    then have on: "eval_path ws ts p0 = e0" "eval_path ws ts p1 = e1"
      by (simp_all add: e0_def e1_def)
    have fcw: "fcw' = d0 + d1 - v - scast (key_sign (snd e0)) * fst e0
                     - scast (key_sign (snd e1)) * fst e1"
      by (simp add: fcw'_def k0 k1)
    have "evalDPF (k0\<lparr>FCW := fcw'\<rparr>) t n + evalDPF (k1\<lparr>FCW := fcw'\<rparr>) t n
            = (if snd e0 then fst e0 + fcw' else fst e0) * scast (key_sign (snd e0))
              + (if snd e1 then fst e1 + fcw' else fst e1) * scast (key_sign (snd e1))"
      by (simp add: ev0 ev1 on)
    also have "\<dots> = d0 + d1 - v"
      using diff by (auto simp add: fcw scast_key_sign)
    finally show ?thesis
      using True by (simp add: m0 m1)
  next
    case False
    have bound: "unat n \<le> 2 ^ depth"
      unfolding depth_def by (rule dpf_depth_bound)
    have "unat t < 2 ^ depth" "unat j < 2 ^ depth"
      using t j bound by (simp_all add: word_less_nat_alt)
    then have "ts \<noteq> bs"
      using False path_bits_inject [of t depth j] by (auto simp add: ts_def bs_def)
    moreover have "length ts = length bs"
      by (simp add: ts_def bs_def)
    ultimately have off: "eval_path ws ts p0 = eval_path ws ts p1"
      unfolding ws_def using gen_words_off_path [OF flags] by blast
    have "evalDPF (k0\<lparr>FCW := fcw'\<rparr>) t n + evalDPF (k1\<lparr>FCW := fcw'\<rparr>) t n
            = (if snd (eval_path ws ts p1) then fst (eval_path ws ts p1) + fcw'
               else fst (eval_path ws ts p1))
              * (scast (key_sign (snd e0)) + scast (key_sign (snd e1)))"
      by (simp add: ev0 ev1 off distrib_left)
    also have "\<dots> = 0"
      using diff by (auto simp add: scast_key_sign)
    finally show ?thesis
      using False by (simp add: m0 m1)
  qed
qed

lemma mt_seed_next: "mt_seed s i = p \<Longrightarrow> j = Suc i \<Longrightarrow>
    mt_seed s j = 1812433253 * (p XOR drop_bit 30 p) + of_nat j"
  by (simp add: Let_def)

lemma mt_seed_0_low:
  "mt_seed 0 0 = 0" "mt_seed 0 1 = 1" "mt_seed 0 2 = 1812433255" "mt_seed 0 3 = 1900727105"
  "mt_seed 0 4 = 1208447044"
  by code_simp+

lemma mt_seed_0_397: "mt_seed 0 397 = 145341901"
  by code_simp

lemma mt_seed_0_398: "mt_seed 0 398 = 3995441263"
  by (simp add: mt_seed_next [OF mt_seed_0_397])

lemma mt_seed_0_399: "mt_seed 0 399 = 3462066219"
  by (simp add: mt_seed_next [OF mt_seed_0_398])

lemma mt_seed_0_400: "mt_seed 0 400 = 2239637848"
  by (simp add: mt_seed_next [OF mt_seed_0_399])

lemma mt19937_0:
  "mt19937 0 0 = 2357136044" "mt19937 0 1 = 2546248239" "mt19937 0 2 = 3071714933"
  "mt19937 0 3 = 3626093760"
  by (simp_all add: mt19937_def mt_temper_def mt_seed_0_low mt_seed_0_397 mt_seed_0_398
      mt_seed_0_399 mt_seed_0_400)

lemma PRG_0: "PRG 0 = \<lparr>s_left = 172, s_right = 47, f_left = True, f_right = False\<rparr>"
  using mt19937_0 by (simp add: PRG_def)

lemma dpf_depth_2: "dpf_depth 2 = 1"
  by (simp add: dpf_depth_def ceil_log2.simps)

lemma gen_0_7_2:
  "generateDPF 0 7 2 0 0 0 =
     (\<lparr>s_root = 0, f_root = False, cws = [\<lparr>scw = 0, fcw_0 = True, fcw_1 = False\<rparr>],
       FCW = 172, sign = 1\<rparr>,
      \<lparr>s_root = 0, f_root = True, cws = [\<lparr>scw = 0, fcw_0 = True, fcw_1 = False\<rparr>],
       FCW = - 165, sign = - 1\<rparr>)"
  by (simp add: generateDPF_def generateDPF_loop_def dpf_depth_2 generateDPF_level_def PRG_0
      key_sign_def)

lemma evalfull_0_7_2:
  "vec_add (EvalFull (fst (generateDPF 0 7 2 0 0 0)) 2) (EvalFull (snd (generateDPF 0 7 2 0 0 0)) 2)
     = [172, 0]"
  by (simp add: gen_0_7_2 EvalFull_def evalDPF_def dpf_depth_2 evalDPF_level_def PRG_0 vec_add_def
      upt_rec [of 0 2] upt_rec [of 1 2])

lemma length_EvalFull [simp]: "length (EvalFull k n) = unat n"
  by (simp add: EvalFull_def)

lemma nth_EvalFull: "i < unat n \<Longrightarrow> EvalFull k n ! i = evalDPF k (of_nat i) n"
  by (simp add: EvalFull_def)

lemma nth_EvalFull_word: "t < n \<Longrightarrow> EvalFull k n ! unat t = evalDPF k t n"
  by (simp add: nth_EvalFull word_less_nat_alt)

lemma unat_of_nat_index:
  assumes "i < unat (n :: u64)"
  shows "unat (of_nat i :: u64) = i"
  using assms le_unat_uoi [of i n] by simp

text \<open>
  C10.  For a domain size below \<open>2^48\<close>, where \<open>dpf_depth\<close> is the number of levels
  the source computes, the two keys of \<open>generateDPF\<close> carry the same correction words,
  one per level; the final flags of the generation loop differ, and the sign fields,
  derived from them, are \<open>+1\<close> and \<open>-1\<close> in one order or the other, so they add up to 0.
\<close>

theorem generateDPF_key_pair:
  assumes "generateDPF index val domain_size draw_s0 draw_s1 draw_R = (k0, k1)"
    and "unat domain_size < 2 ^ 48"
  shows "cws k0 = cws k1 \<and> length (cws k0) = dpf_depth domain_size
    \<and> f0_curr (generateDPF_loop index domain_size draw_s0 draw_s1)
        \<noteq> f1_curr (generateDPF_loop index domain_size draw_s0 draw_s1)
    \<and> sign k0 = key_sign (f0_curr (generateDPF_loop index domain_size draw_s0 draw_s1))
    \<and> sign k1 = key_sign (f1_curr (generateDPF_loop index domain_size draw_s0 draw_s1))
    \<and> sint (sign k0) \<in> {1, - 1} \<and> sint (sign k1) \<in> {1, - 1}
    \<and> sint (sign k0) + sint (sign k1) = 0"
proof -
  define bs where "bs = path_bits index (dpf_depth domain_size)"
  define p0 :: "u64 \<times> bool" where "p0 = (ucast draw_s0, False)"
  define p1 :: "u64 \<times> bool" where "p1 = (ucast draw_s1, True)"
  define ws where "ws = gen_words bs p0 p1"
  have loop: "generateDPF_loop index domain_size draw_s0 draw_s1 =
      \<lparr>s0_curr = fst (eval_path ws bs p0), s1_curr = fst (eval_path ws bs p1),
       f0_curr = snd (eval_path ws bs p0), f1_curr = snd (eval_path ws bs p1), gen_cws = ws\<rparr>"
    by (simp add: generateDPF_loop_path Let_def bs_def p0_def p1_def ws_def)
  have "snd p0 \<noteq> snd p1"
    by (simp add: p0_def p1_def)
  then have diff: "snd (eval_path ws bs p0) \<noteq> snd (eval_path ws bs p1)"
    unfolding ws_def by (rule gen_words_on_path)
  have k0: "cws k0 = ws" "sign k0 = key_sign (snd (eval_path ws bs p0))"
    and k1: "cws k1 = ws" "sign k1 = key_sign (snd (eval_path ws bs p1))"
    using assms(1) by (auto simp add: generateDPF_def loop Let_def)
  have len: "length ws = dpf_depth domain_size"
    by (simp add: ws_def bs_def)
  have sgn: "sint (key_sign f) = (if f then 1 else - 1)" for f
    by (simp add: key_sign_def)
  show ?thesis
    using diff by (auto simp add: k0 k1 len loop sgn)
qed

theorem generateDPF_key_pair_witness:
  "cws (fst (generateDPF 0 7 2 0 0 0)) = [\<lparr>scw = 0, fcw_0 = True, fcw_1 = False\<rparr>]
   \<and> cws (snd (generateDPF 0 7 2 0 0 0)) = [\<lparr>scw = 0, fcw_0 = True, fcw_1 = False\<rparr>]
   \<and> dpf_depth 2 = 1
   \<and> sign (fst (generateDPF 0 7 2 0 0 0)) = 1 \<and> sign (snd (generateDPF 0 7 2 0 0 0)) = - 1"
  using generateDPF_key_pair [of 0 7 2 0 0 0 "fst (generateDPF 0 7 2 0 0 0)"
      "snd (generateDPF 0 7 2 0 0 0)"]
  by (simp add: gen_0_7_2 dpf_depth_2)

text \<open>
  C3.  For a key pair generated for index \<open>j < n\<close>, \<open>n < 2^48\<close>, with value 0 and any
  split \<open>d0 + d1 = v_new\<close>: when each party sends \<open>d_b - FCW_b\<close> and both put the sum of
  the two masked updates into a copy of their key, the element-wise sum of the two
  \<open>EvalFull\<close> vectors over \<open>n\<close> leaves is \<open>v_new\<close> at index \<open>j\<close> and 0 elsewhere.
\<close>

theorem fcw_repair_correct:
  assumes "generateDPF j 0 n draw_s0 draw_s1 draw_R = (k0, k1)"
    and "j < n" and "d0 + d1 = v_new" and "unat n < 2 ^ 48"
  shows "vec_add (EvalFull (modified_key d0 k0 (masked_update d1 k1)) n)
                 (EvalFull (modified_key d1 k1 (masked_update d0 k0)) n)
         = map (\<lambda>t. if t = unat j then v_new else 0) [0..<unat n]"
proof (rule nth_equalityI)
  show "length (vec_add (EvalFull (modified_key d0 k0 (masked_update d1 k1)) n)
                 (EvalFull (modified_key d1 k1 (masked_update d0 k0)) n))
        = length (map (\<lambda>t. if t = unat j then v_new else 0) [0..<unat n])"
    by simp
next
  fix i
  assume "i < length (vec_add (EvalFull (modified_key d0 k0 (masked_update d1 k1)) n)
                 (EvalFull (modified_key d1 k1 (masked_update d0 k0)) n))"
  then have i: "i < unat n" by simp
  define t :: u64 where "t = of_nat i"
  have ut: "unat t = i"
    unfolding t_def using i by (rule unat_of_nat_index)
  then have tn: "t < n"
    using i by (simp add: word_less_nat_alt)
  have eq: "(t = j) = (i = unat j)"
    using ut by (auto simp add: word_unat_eq_iff)
  have "evalDPF (modified_key d0 k0 (masked_update d1 k1)) t n
         + evalDPF (modified_key d1 k1 (masked_update d0 k0)) t n
         = (if t = j then d0 + d1 - 0 else 0)"
    by (rule dpf_repaired_sum [OF assms(1) tn assms(2)])
  then show "vec_add (EvalFull (modified_key d0 k0 (masked_update d1 k1)) n)
                 (EvalFull (modified_key d1 k1 (masked_update d0 k0)) n) ! i
        = map (\<lambda>t. if t = unat j then v_new else 0) [0..<unat n] ! i"
    using i assms(3) by (simp add: nth_EvalFull t_def [symmetric] eq)
qed

lemma gen_0_0_2:
  "generateDPF 0 0 2 0 0 0 =
     (\<lparr>s_root = 0, f_root = False, cws = [\<lparr>scw = 0, fcw_0 = True, fcw_1 = False\<rparr>],
       FCW = 172, sign = 1\<rparr>,
      \<lparr>s_root = 0, f_root = True, cws = [\<lparr>scw = 0, fcw_0 = True, fcw_1 = False\<rparr>],
       FCW = - 172, sign = - 1\<rparr>)"
  by (simp add: generateDPF_def generateDPF_loop_def dpf_depth_2 generateDPF_level_def PRG_0
      key_sign_def)

theorem fcw_repair_correct_witness:
  "vec_add
     (EvalFull (modified_key 3 (fst (generateDPF 0 0 2 0 0 0))
                  (masked_update 4 (snd (generateDPF 0 0 2 0 0 0)))) 2)
     (EvalFull (modified_key 4 (snd (generateDPF 0 0 2 0 0 0))
                  (masked_update 3 (fst (generateDPF 0 0 2 0 0 0)))) 2)
   = [7, 0]"
  using fcw_repair_correct [of 0 2 0 0 0 "fst (generateDPF 0 0 2 0 0 0)"
      "snd (generateDPF 0 0 2 0 0 0)" 3 4 7]
  by (simp add: upt_0_2)

theorem raw_keys_counterexample:
  "vec_add (EvalFull (fst (generateDPF 0 7 2 0 0 0)) 2) (EvalFull (snd (generateDPF 0 7 2 0 0 0)) 2)
     = [172, 0]
   \<and> vec_add (EvalFull (fst (generateDPF 0 7 2 0 0 0)) 2)
        (EvalFull (snd (generateDPF 0 7 2 0 0 0)) 2) \<noteq> [7, 0]"
  by (simp add: evalfull_0_7_2)

text \<open>
  C2, amended.  The keys of \<open>generateDPF(j, v, n)\<close> carry additive shares of the final
  correction word and are not evaluated as they are.  Once both parties have replaced
  the FCW by the common word \<open>(d0 - FCW0) + (d1 - FCW1)\<close>, as the item-update loop does,
  then for every \<open>n < 2^48\<close>, every \<open>j < n\<close> and every \<open>t < n\<close> the two \<open>EvalFull\<close>
  entries at \<open>t\<close> add up to \<open>d0 + d1 - v\<close> if \<open>t = j\<close> and to 0 otherwise.
\<close>

theorem dpf_point_function_after_repair:
  assumes "generateDPF j v n draw_s0 draw_s1 draw_R = (k0, k1)"
    and "j < n" and "t < n" and "unat n < 2 ^ 48"
  shows "EvalFull (modified_key d0 k0 (masked_update d1 k1)) n ! unat t
         + EvalFull (modified_key d1 k1 (masked_update d0 k0)) n ! unat t
         = (if t = j then d0 + d1 - v else 0)"
  using dpf_repaired_sum [OF assms(1) assms(3) assms(2)] assms(3)
  by (simp add: nth_EvalFull_word)

theorem dpf_point_function_after_repair_witness:
  "EvalFull (modified_key 10 (fst (generateDPF 0 7 2 0 0 0))
               (masked_update 4 (snd (generateDPF 0 7 2 0 0 0)))) 2 ! unat (0 :: u64)
   + EvalFull (modified_key 4 (snd (generateDPF 0 7 2 0 0 0))
               (masked_update 10 (fst (generateDPF 0 7 2 0 0 0)))) 2 ! unat (0 :: u64)
   = 7"
  using dpf_point_function_after_repair [of 0 7 2 0 0 0 "fst (generateDPF 0 7 2 0 0 0)"
      "snd (generateDPF 0 7 2 0 0 0)" 0 10 4]
  by simp

section \<open>Oblivious lookup\<close>

lemma rotation_index_arith:
  assumes "j < n" "r < n" "p < n"
  shows "(((n - (n + j - r) mod n) mod n + p) mod n = r) = (p = (j::nat))"
proof (cases "r \<le> j")
  case True
  define d where "d = j - r"
  have j: "j = r + d" and dn: "d < n"
    using True assms by (simp_all add: d_def)
  have "n + j - r = n + d"
    by (simp add: j)
  then have T: "(n + j - r) mod n = d"
    using dn by simp
  show ?thesis
  proof (cases "d = 0")
    case True
    then show ?thesis
      using assms by (simp add: T j)
  next
    case False
    then have m: "(n - d) mod n = n - d"
      using dn by simp
    show ?thesis
    proof (cases "d \<le> p")
      case True
      have "n - d + p = n + (p - d)"
        using True dn by simp
      then have "(n - d + p) mod n = (p - d) mod n"
        by (metis mod_add_self1)
      also have "\<dots> = p - d"
        using assms by simp
      finally have "((n - (n + j - r) mod n) mod n + p) mod n = p - d"
        by (simp only: T m)
      then show ?thesis
        using True j by auto
    next
      case False
      then have "(n - d + p) mod n = n - d + p"
        using dn by simp
      then have "((n - (n + j - r) mod n) mod n + p) mod n = n - d + p"
        by (simp only: T m)
      then show ?thesis
        using False j assms by auto
    qed
  qed
next
  case False
  define d where "d = r - j"
  have r: "r = j + d" and d0: "0 < d" and dn: "d < n"
    using False assms by (simp_all add: d_def)
  have "n + j - r = n - d"
    by (simp add: r)
  then have T: "(n + j - r) mod n = n - d"
    using d0 dn by simp
  have "n - (n - d) = d"
    using dn by simp
  then have m: "(n - (n - d)) mod n = d"
    using dn by simp
  show ?thesis
  proof (cases "d + p < n")
    case True
    then have "(d + p) mod n = d + p"
      by simp
    then have "((n - (n + j - r) mod n) mod n + p) mod n = d + p"
      by (simp only: T m)
    then show ?thesis
      using r by auto
  next
    case False
    then have "d + p = n + (d + p - n)"
      by simp
    then have "(d + p) mod n = (d + p - n) mod n"
      by (metis mod_add_self1)
    also have "\<dots> = d + p - n"
      using assms dn by simp
    finally have "((n - (n + j - r) mod n) mod n + p) mod n = d + p - n"
      by (simp only: T m)
    then show ?thesis
      using False r assms by auto
  qed
qed

lemma c_rem_nonneg: "0 \<le> a \<Longrightarrow> a < b \<Longrightarrow> c_rem a b = a"
  by (simp add: c_rem_def sgn_if)

lemma c_rem_neg: "a < 0 \<Longrightarrow> - b < a \<Longrightarrow> c_rem a b = a"
  by (simp add: c_rem_def sgn_if)

lemma sint_offset:
  assumes "j < n" "r < n" "n < 2 ^ 32"
  shows "sint ((of_nat j :: i64) - of_nat r) = int j - int r"
proof -
  have eq: "(of_nat j :: i64) - of_nat r = word_of_int (int j - int r)"
    by simp
  have "- (2 ^ 63) \<le> int j - int r" "int j - int r < 2 ^ 63"
    using assms by simp_all
  then have "signed_take_bit 63 (int j - int r) = int j - int r"
    by (intro signed_take_bit_int_eq_self) simp_all
  then have "sint (word_of_int (int j - int r) :: i64) = int j - int r"
    by (simp only: signed_of_int) simp
  then show ?thesis
    by (simp only: eq)
qed

lemma uint_of_nat_u32: "n < 2 ^ 32 \<Longrightarrow> uint (of_nat n :: u32) = int n"
  by (simp add: unsigned_of_nat take_bit_nat_eq_self)

lemma unat_of_int_u32: "n < 2 ^ 32 \<Longrightarrow> unat (word_of_int (int n) :: u32) = n"
  by (simp add: unsigned_of_nat take_bit_nat_eq_self)

lemma unat_total_rotation:
  assumes "j < n" "r < n" "n < 2 ^ 32"
  shows "unat (total_rotation (of_nat n) ((of_nat j :: i64) - of_nat r)) = (n + j - r) mod n"
proof -
  have c: "sint ((of_nat j :: i64) - of_nat r) = int j - int r"
    by (rule sint_offset [OF assms])
  show ?thesis
  proof (cases "r \<le> j")
    case True
    then have "c_rem (int j - int r) (int n) = int (j - r)"
      using assms by (simp add: c_rem_nonneg of_nat_diff)
    then have "total_rotation (of_nat n) ((of_nat j :: i64) - of_nat r) = word_of_int (int (j - r))"
      using True by (simp only: total_rotation_def c uint_of_nat_u32 [OF assms(3)]) simp
    moreover have "(n + j - r) mod n = j - r"
      using True assms by (simp add: le_mod_geq)
    moreover have "j - r < 2 ^ 32"
      using assms by simp
    ultimately show ?thesis
      by (simp only: unat_of_int_u32)
  next
    case False
    then have "c_rem (int j - int r) (int n) = int j - int r"
      using assms by (simp add: c_rem_neg)
    moreover have "c_rem (int n + (int j - int r)) (int n) = int (n + j - r)"
      using False assms by (simp add: c_rem_nonneg of_nat_diff)
    ultimately have "total_rotation (of_nat n) ((of_nat j :: i64) - of_nat r)
        = word_of_int (int (n + j - r))"
      using False by (simp only: total_rotation_def c uint_of_nat_u32 [OF assms(3)]) simp
    moreover have "(n + j - r) mod n = n + j - r"
      using False assms by simp
    moreover have "n + j - r < 2 ^ 32"
      using False assms by simp
    ultimately show ?thesis
      by (simp only: unat_of_int_u32)
  qed
qed

lemma unat_rotate_amount:
  assumes "unat (t :: u32) < n" "n < 2 ^ 32"
  shows "unat (((of_nat n :: u64) - ucast t) mod (of_nat n :: u64)) = (n - unat t) mod n"
proof -
  have n: "unat (of_nat n :: u64) = n"
    using assms(2) by (simp add: unsigned_of_nat take_bit_nat_eq_self)
  have "unat t < 2 ^ 64"
    using assms by simp
  then have t: "unat (ucast t :: u64) = unat t"
    by (simp add: unsigned_ucast_eq take_bit_nat_eq_self)
  have "(ucast t :: u64) \<le> of_nat n"
    using assms(1) by (simp add: word_le_nat_alt n t)
  then show ?thesis
    by (simp add: unat_mod unat_sub n t)
qed

lemma unat_of_nat_u32: "n < 2 ^ 32 \<Longrightarrow> unat (of_nat n :: u32) = n"
  by (simp add: unsigned_of_nat take_bit_nat_eq_self)

lemma nth_one_hot_vector: "q < n \<Longrightarrow> one_hot_vector n r ! q = (if q = r then 1 else 0)"
  by (simp add: one_hot_vector_def nth_list_update)

lemma length_rotate_selector [simp]: "length (rotate_selector rv t) = length rv"
  by (simp add: rotate_selector_def)

lemma selector_sum:
  assumes n: "0 < n" "n < 2 ^ 32" and j: "j < n" and r: "r < n"
    and len: "length rv0 = n" "length rv1 = n"
    and hot: "vec_add rv0 rv1 = one_hot_vector n r"
    and t: "unat t = (n + j - r) mod n"
  shows "vec_add (rotate_selector rv0 t) (rotate_selector rv1 t) = one_hot_vector n j"
proof (rule vec_eqI)
  show "length (vec_add (rotate_selector rv0 t) (rotate_selector rv1 t)) = length (one_hot_vector n j)"
    by (simp add: len one_hot_vector_def)
next
  fix p
  assume "p < length (vec_add (rotate_selector rv0 t) (rotate_selector rv1 t))"
  then have p: "p < n" by (simp add: len)
  have tn: "unat t < n"
    using t n by simp
  define q where "q = ((n - (n + j - r) mod n) mod n + p) mod n"
  have qn: "q < n"
    using n by (simp add: q_def)
  have amount: "unat (((of_nat n :: u64) - ucast t) mod (of_nat n :: u64))
                  = (n - (n + j - r) mod n) mod n"
    using unat_rotate_amount [OF tn n(2)] by (simp add: t)
  have sel: "rotate_selector rv t ! p = rv ! q" if "length rv = n" for rv
    using that p by (simp add: rotate_selector_def amount nth_rotate q_def)
  have "rv0 ! q + rv1 ! q = vec_add rv0 rv1 ! q"
    using qn len by simp
  also have "\<dots> = (if q = r then 1 else 0)"
    using qn by (simp add: hot nth_one_hot_vector)
  also have "\<dots> = (if p = j then 1 else 0)"
    using rotation_index_arith [OF j r p] by (simp add: q_def)
  finally show "vec_add (rotate_selector rv0 t) (rotate_selector rv1 t) ! p = one_hot_vector n j ! p"
    using p len by (simp add: sel nth_one_hot_vector)
qed

lemma vec_dot_product_one_hot:
  assumes "length a = n" "j < n"
  shows "vec_dot_product a (one_hot_vector n j) = a ! j"
proof -
  have "vec_dot_product a (one_hot_vector n j) = (\<Sum>i<n. a ! i * (if i = j then 1 else 0))"
    using assms by (simp add: vec_dot_product_sum nth_one_hot_vector)
  also have "\<dots> = (\<Sum>i<n. if i = j then a ! i else 0)"
    by (rule sum.cong) simp_all
  also have "\<dots> = a ! j"
    using assms by simp
  finally show ?thesis .
qed

lemma item_matrix_column_props:
  assumes "length V = n" "n < 2 ^ 32"
  shows "length (item_matrix_column V f) = n"
    and "\<And>p. p < n \<Longrightarrow> item_matrix_column V f ! p = V ! p ! f"
  using assms by (simp_all add: item_matrix_column_def unat_of_nat_u32)

lemma lookup_selector_pair:
  assumes n: "length V0 = n" "length V1 = n" "0 < n" "n < 2 ^ 32"
    and j: "j < n" "j0 + j1 = of_nat j"
    and r: "r < n" "rotation_base lm0 + rotation_base lm1 = of_nat r"
    and rv: "length (rotation_vector lm0) = n" "length (rotation_vector lm1) = n"
      "vec_add (rotation_vector lm0) (rotation_vector lm1) = one_hot_vector n r"
  shows "vec_add (lookup_selector j0 V0 lm0 (lookup_rotation_offset j1 lm1))
                 (lookup_selector j1 V1 lm1 (lookup_rotation_offset j0 lm0))
           = one_hot_vector n j"
    and "length (lookup_selector j0 V0 lm0 (lookup_rotation_offset j1 lm1)) = n"
    and "length (lookup_selector j1 V1 lm1 (lookup_rotation_offset j0 lm0)) = n"
    and "unat (total_rotation (of_nat n)
            (lookup_rotation_offset j0 lm0 + lookup_rotation_offset j1 lm1)) = (n + j - r) mod n"
proof -
  have c: "lookup_rotation_offset j0 lm0 + lookup_rotation_offset j1 lm1
             = (of_nat j :: i64) - of_nat r"
  proof -
    have "lookup_rotation_offset j0 lm0 + lookup_rotation_offset j1 lm1
            = (j0 + j1) - (rotation_base lm0 + rotation_base lm1)"
      by (simp add: lookup_rotation_offset_def)
    then show ?thesis
      by (simp only: j(2) r(2))
  qed
  have c': "lookup_rotation_offset j1 lm1 + lookup_rotation_offset j0 lm0
             = (of_nat j :: i64) - of_nat r"
    using c by (simp add: add.commute)
  show t: "unat (total_rotation (of_nat n)
            (lookup_rotation_offset j0 lm0 + lookup_rotation_offset j1 lm1)) = (n + j - r) mod n"
    by (simp only: c unat_total_rotation [OF j(1) r(1) n(4)])
  have s0: "lookup_selector j0 V0 lm0 (lookup_rotation_offset j1 lm1)
              = rotate_selector (rotation_vector lm0)
                  (total_rotation (of_nat n) ((of_nat j :: i64) - of_nat r))"
    by (simp add: lookup_selector_def Let_def n(1) c)
  have s1: "lookup_selector j1 V1 lm1 (lookup_rotation_offset j0 lm0)
              = rotate_selector (rotation_vector lm1)
                  (total_rotation (of_nat n) ((of_nat j :: i64) - of_nat r))"
    by (simp add: lookup_selector_def Let_def n(2) c')
  show "vec_add (lookup_selector j0 V0 lm0 (lookup_rotation_offset j1 lm1))
                 (lookup_selector j1 V1 lm1 (lookup_rotation_offset j0 lm0))
           = one_hot_vector n j"
    unfolding s0 s1
    by (rule selector_sum [OF n(3,4) j(1) r(1) rv unat_total_rotation [OF j(1) r(1) n(4)]])
  show "length (lookup_selector j0 V0 lm0 (lookup_rotation_offset j1 lm1)) = n"
    by (simp add: s0 rv)
  show "length (lookup_selector j1 V1 lm1 (lookup_rotation_offset j0 lm0)) = n"
    by (simp add: s1 rv)
qed

lemma dot_material_of_sum:
  assumes "dot_draw_ok (length x0) d"
    and "length y0 = length x0" "length x1 = length x0" "length y1 = length x0"
  shows "compute_secure_inner_product x0 y0 (fst (dot_material_of d))
           (inner_product_masked x1 y1 (snd (dot_material_of d)))
         + compute_secure_inner_product x1 y1 (snd (dot_material_of d))
           (inner_product_masked x0 y0 (fst (dot_material_of d)))
         = vec_dot_product (vec_add x0 x1) (vec_add y0 y1)"
proof -
  obtain X0 Y0 X1 Y1 R where d: "d = (X0, Y0, X1, Y1, R)"
    by (cases d) auto
  have len: "length X0 = length x0" "length Y0 = length x0"
    "length X1 = length x0" "length Y1 = length x0"
    using assms(1) by (simp_all add: d dot_draw_ok_def)
  show ?thesis
    using secure_inner_product_sum [OF assms(2-4) len, of R]
    by (simp add: d dot_material_of_def generate_dot_product_material_def inner_product_masked_def)
qed

lemma retrieve_pair_sum:
  assumes n: "length V0 = n" "length V1 = n" "0 < n" "n < 2 ^ 32"
    and rows: "\<And>i. i < n \<Longrightarrow> length (V0 ! i) = k" "\<And>i. i < n \<Longrightarrow> length (V1 ! i) = k"
      "k < 2 ^ 32"
    and j: "j < n" "j0 + j1 = of_nat j"
    and r: "r < n" "rotation_base lm0 + rotation_base lm1 = of_nat r"
    and rv: "length (rotation_vector lm0) = n" "length (rotation_vector lm1) = n"
      "vec_add (rotation_vector lm0) (rotation_vector lm1) = one_hot_vector n r"
    and draws: "length draws = k" "list_all (dot_draw_ok n) draws"
  shows "vec_add
           (fst (retrieve_item_profile_pair j0 V0 j1 V1 (lm0, lm1)
                   (map fst (map dot_material_of draws)) (map snd (map dot_material_of draws))))
           (snd (retrieve_item_profile_pair j0 V0 j1 V1 (lm0, lm1)
                   (map fst (map dot_material_of draws)) (map snd (map dot_material_of draws))))
         = vec_add (V0 ! j) (V1 ! j)"
    and "length (fst (retrieve_item_profile_pair j0 V0 j1 V1 (lm0, lm1)
                   (map fst (map dot_material_of draws)) (map snd (map dot_material_of draws)))) = k"
    and "length (snd (retrieve_item_profile_pair j0 V0 j1 V1 (lm0, lm1)
                   (map fst (map dot_material_of draws)) (map snd (map dot_material_of draws)))) = k"
proof -
  define sel0 where "sel0 = lookup_selector j0 V0 lm0 (lookup_rotation_offset j1 lm1)"
  define sel1 where "sel1 = lookup_selector j1 V1 lm1 (lookup_rotation_offset j0 lm0)"
  define mats0 where "mats0 = map fst (map dot_material_of draws)"
  define mats1 where "mats1 = map snd (map dot_material_of draws)"
  define out0 where "out0 = fst (retrieve_item_profile_pair j0 V0 j1 V1 (lm0, lm1) mats0 mats1)"
  define out1 where "out1 = snd (retrieve_item_profile_pair j0 V0 j1 V1 (lm0, lm1) mats0 mats1)"
  have sel: "vec_add sel0 sel1 = one_hot_vector n j" "length sel0 = n" "length sel1 = n"
    unfolding sel0_def sel1_def by (rule lookup_selector_pair [OF n j r rv])+
  have k0: "lookup_feature_dim V0 = k" and k1: "lookup_feature_dim V1 = k"
    using rows(1) [of 0] rows(2) [of 0] n(3) rows(3)
    by (simp_all add: lookup_feature_dim_def unat_of_nat_u32)
  have len0: "length out0 = k" and len1: "length out1 = k"
    by (simp_all add: out0_def out1_def retrieve_item_profile_pair_def
        retrieve_item_profile_shares_def Let_def k0 k1)
  have nth0: "out0 ! f = compute_secure_inner_product (item_matrix_column V0 f) sel0 (mats0 ! f)
                (inner_product_masked (item_matrix_column V1 f) sel1 (mats1 ! f))"
    and nth1: "out1 ! f = compute_secure_inner_product (item_matrix_column V1 f) sel1 (mats1 ! f)
                (inner_product_masked (item_matrix_column V0 f) sel0 (mats0 ! f))"
    if "f < k" for f
    using that
    by (simp_all add: out0_def out1_def retrieve_item_profile_pair_def
        retrieve_item_profile_shares_def retrieve_masked_def Let_def k0 k1 sel0_def sel1_def)
  have "vec_add out0 out1 = vec_add (V0 ! j) (V1 ! j)"
  proof (rule vec_eqI)
    show "length (vec_add out0 out1) = length (vec_add (V0 ! j) (V1 ! j))"
      using rows(1) [OF j(1)] by (simp add: len0)
  next
    fix f
    assume "f < length (vec_add out0 out1)"
    then have f: "f < k" by (simp add: len0)
    define col0 where "col0 = item_matrix_column V0 f"
    define col1 where "col1 = item_matrix_column V1 f"
    have c0: "length col0 = n" "\<And>p. p < n \<Longrightarrow> col0 ! p = V0 ! p ! f"
      unfolding col0_def by (rule item_matrix_column_props [OF n(1) n(4)])+
    have c1: "length col1 = n" "\<And>p. p < n \<Longrightarrow> col1 ! p = V1 ! p ! f"
      unfolding col1_def by (rule item_matrix_column_props [OF n(2) n(4)])+
    have ok: "dot_draw_ok (length col0) (draws ! f)"
      using draws f by (simp add: list_all_length c0)
    have m: "mats0 ! f = fst (dot_material_of (draws ! f))"
      "mats1 ! f = snd (dot_material_of (draws ! f))"
      using draws f by (simp_all add: mats0_def mats1_def)
    have "out0 ! f + out1 ! f = vec_dot_product (vec_add col0 col1) (vec_add sel0 sel1)"
      using dot_material_of_sum [OF ok, of sel0 col1 sel1]
      by (simp add: nth0 [OF f] nth1 [OF f] m col0_def [symmetric] col1_def [symmetric] sel c0 c1)
    also have "\<dots> = vec_add col0 col1 ! j"
      using vec_dot_product_one_hot [of "vec_add col0 col1" n j] j(1)
      by (simp add: sel c0)
    also have "\<dots> = V0 ! j ! f + V1 ! j ! f"
      using j(1) by (simp add: c0 c1)
    finally show "vec_add out0 out1 ! f = vec_add (V0 ! j) (V1 ! j) ! f"
      using f rows(1) [OF j(1)] by (simp add: len0)
  qed
  then show "vec_add
           (fst (retrieve_item_profile_pair j0 V0 j1 V1 (lm0, lm1)
                   (map fst (map dot_material_of draws)) (map snd (map dot_material_of draws))))
           (snd (retrieve_item_profile_pair j0 V0 j1 V1 (lm0, lm1)
                   (map fst (map dot_material_of draws)) (map snd (map dot_material_of draws))))
         = vec_add (V0 ! j) (V1 ! j)"
    by (simp add: out0_def out1_def mats0_def mats1_def)
  show "length (fst (retrieve_item_profile_pair j0 V0 j1 V1 (lm0, lm1)
                   (map fst (map dot_material_of draws)) (map snd (map dot_material_of draws)))) = k"
    using len0 by (simp add: out0_def mats0_def mats1_def)
  show "length (snd (retrieve_item_profile_pair j0 V0 j1 V1 (lm0, lm1)
                   (map fst (map dot_material_of draws)) (map snd (map dot_material_of draws)))) = k"
    using len1 by (simp add: out1_def mats0_def mats1_def)
qed

text \<open>
  C4.  For item-matrix shares \<open>V0, V1\<close> with \<open>n\<close> rows of \<open>k\<close> entries, any sharing
  \<open>j0 + j1 = j\<close> of an index \<open>j < n\<close>, any rotation index \<open>r < n\<close> with any split of
  \<open>r\<close> and of the one-hot vector of \<open>r\<close> into shares, and dot-product material from
  any draws of length \<open>n\<close>, the outputs of the two servers add up to row \<open>j\<close> of
  \<open>V0 + V1\<close>; both servers rotate by \<open>(j - r) mod n\<close>, also when \<open>j - r\<close> is negative.
\<close>

theorem oblivious_lookup_correct:
  assumes "length V0 = n" "length V1 = n" "0 < n" "n < 2 ^ 32"
    and "list_all (\<lambda>row. length row = k) V0" "list_all (\<lambda>row. length row = k) V1"
      "k < 2 ^ 32"
    and "j < n" "j0 + j1 = of_nat j"
    and "r < n" "rotation_base lm0 + rotation_base lm1 = of_nat r"
    and "length (rotation_vector lm0) = n" "length (rotation_vector lm1) = n"
      "vec_add (rotation_vector lm0) (rotation_vector lm1) = one_hot_vector n r"
    and "length draws = k" "list_all (dot_draw_ok n) draws"
    and "retrieve_item_profile_pair j0 V0 j1 V1 (lm0, lm1)
           (map fst (map dot_material_of draws)) (map snd (map dot_material_of draws))
         = (out0, out1)"
  shows "vec_add out0 out1 = vec_add (V0 ! j) (V1 ! j)
         \<and> unat (total_rotation (of_nat n)
              (lookup_rotation_offset j0 lm0 + lookup_rotation_offset j1 lm1)) = (n + j - r) mod n"
proof -
  have rows0: "\<And>i. i < n \<Longrightarrow> length (V0 ! i) = k"
    using assms(1,5) by (simp add: list_all_length)
  have rows1: "\<And>i. i < n \<Longrightarrow> length (V1 ! i) = k"
    using assms(2,6) by (simp add: list_all_length)
  have "vec_add out0 out1 = vec_add (V0 ! j) (V1 ! j)"
    using retrieve_pair_sum(1) [OF assms(1-4) rows0 rows1 assms(7-16)] assms(17) by simp
  moreover have "unat (total_rotation (of_nat n)
              (lookup_rotation_offset j0 lm0 + lookup_rotation_offset j1 lm1)) = (n + j - r) mod n"
    by (rule lookup_selector_pair(4) [OF assms(1-4) assms(8-14)])
  ultimately show ?thesis by simp
qed

lemma upt_0_8: "[0..<8] = [0, 1, 2, 3, 4, 5, 6, 7]"
  by (simp add: upt_rec)

lemma one_hot_8_7: "one_hot_vector 8 7 = [0, 0, 0, 0, 0, 0, 0, 1]"
  by (simp add: one_hot_vector_def numeral_eq_Suc)

lemma vec_add_8:
  "vec_add [1, 1, 1, 1, 1, 1, 1, 1] [- 1, - 1, - 1, - 1, - 1, - 1, - 1, 0]
     = [0, 0, 0, 0, 0, 0, 0, 1]"
  by (simp add: vec_add_def upt_0_8)

theorem oblivious_lookup_correct_witness:
  "vec_add
     (fst (retrieve_item_profile_pair 100 boundary_V0 (- 100) boundary_V1
            (boundary_lm0, boundary_lm1)
            (map fst (map dot_material_of boundary_draws))
            (map snd (map dot_material_of boundary_draws))))
     (snd (retrieve_item_profile_pair 100 boundary_V0 (- 100) boundary_V1
            (boundary_lm0, boundary_lm1)
            (map fst (map dot_material_of boundary_draws))
            (map snd (map dot_material_of boundary_draws))))
   = [11]
   \<and> unat (total_rotation 8 (lookup_rotation_offset 100 boundary_lm0
                               + lookup_rotation_offset (- 100) boundary_lm1)) = 1"
  using oblivious_lookup_correct
    [where ?V0.0 = boundary_V0 and ?V1.0 = boundary_V1
       and n = 8 and k = 1 and j = 0 and ?j0.0 = 100 and ?j1.0 = "- 100" and r = 7
       and ?lm0.0 = boundary_lm0 and ?lm1.0 = boundary_lm1 and draws = boundary_draws
       and ?out0.0 = "fst (retrieve_item_profile_pair 100 boundary_V0 (- 100) boundary_V1
            (boundary_lm0, boundary_lm1)
            (map fst (map dot_material_of boundary_draws))
            (map snd (map dot_material_of boundary_draws)))"
       and ?out1.0 = "snd (retrieve_item_profile_pair 100 boundary_V0 (- 100) boundary_V1
            (boundary_lm0, boundary_lm1)
            (map fst (map dot_material_of boundary_draws))
            (map snd (map dot_material_of boundary_draws)))"]
  by (simp add: vec_add_8 one_hot_8_7 dot_draw_ok_def vec_add_def)

section \<open>End-to-end equivalence\<close>

lemma mat_dims_nth: "mat_dims rows cols M \<Longrightarrow> i < rows \<Longrightarrow> length (M ! i) = cols"
  by (simp add: mat_dims_def list_all_length)

lemma mat_dims_length: "mat_dims rows cols M \<Longrightarrow> length M = rows"
  by (simp add: mat_dims_def)

lemma mat_dimsI:
  assumes "length M = rows" "\<And>i. i < rows \<Longrightarrow> length (M ! i) = cols"
  shows "mat_dims rows cols M"
  using assms by (simp add: mat_dims_def list_all_length)

lemma mat_eqI:
  assumes "mat_dims rows cols A" "mat_dims rows cols B"
    and "\<And>i f. i < rows \<Longrightarrow> f < cols \<Longrightarrow> A ! i ! f = B ! i ! f"
  shows "A = B"
proof (rule nth_equalityI)
  show "length A = length B"
    using assms(1,2) by (simp add: mat_dims_def)
next
  fix i
  assume "i < length A"
  then have i: "i < rows"
    using assms(1) by (simp add: mat_dims_def)
  show "A ! i = B ! i"
  proof (rule nth_equalityI)
    show "length (A ! i) = length (B ! i)"
      using mat_dims_nth [OF assms(1) i] mat_dims_nth [OF assms(2) i] by simp
  next
    fix f
    assume "f < length (A ! i)"
    then have "f < cols"
      using mat_dims_nth [OF assms(1) i] by simp
    then show "A ! i ! f = B ! i ! f"
      using i by (rule assms(3) [rotated])
  qed
qed

lemma mat_dims_update:
  assumes "mat_dims rows cols M" "length row = cols"
  shows "mat_dims rows cols (M[i := row])"
proof (rule mat_dimsI)
  show "length (M[i := row]) = rows"
    using assms(1) by (simp add: mat_dims_def)
next
  fix p
  assume "p < rows"
  then show "length (M[i := row] ! p) = cols"
    using assms mat_dims_nth [OF assms(1), of p]
    by (cases "p = i") (simp_all add: mat_dims_def)
qed

lemma mat_add_dims:
  assumes "mat_dims rows cols A"
  shows "mat_dims rows cols (mat_add A B)"
  using assms by (intro mat_dimsI) (simp_all add: mat_add_def mat_dims_length mat_dims_nth)

lemma mat_add_nth:
  assumes "mat_dims rows cols A" "i < rows" "f < cols"
  shows "mat_add A B ! i ! f = A ! i ! f + B ! i ! f"
  using assms by (simp add: mat_add_def mat_dims_length mat_dims_nth)

lemma recombine_shares_mat_add:
  assumes "mat_dims rows cols A" "mat_dims rows cols B"
  shows "recombine_shares A B = Inr (mat_add A B)"
proof -
  have len: "length A = rows" "length B = rows"
    using assms by (simp_all add: mat_dims_def)
  have c: "0 < rows \<Longrightarrow> length (A ! 0) = cols \<and> length (B ! 0) = cols"
    using assms by (simp add: mat_dims_nth)
  have "map (\<lambda>i. map (\<lambda>j. A ! i ! j + B ! i ! j) [0..<if 0 < rows then length (A ! 0) else 0])
          [0..<rows] = mat_add A B"
  proof (rule nth_equalityI)
    show "length (map (\<lambda>i. map (\<lambda>j. A ! i ! j + B ! i ! j)
              [0..<if 0 < rows then length (A ! 0) else 0]) [0..<rows]) = length (mat_add A B)"
      by (simp add: mat_add_def len)
  next
    fix i
    assume "i < length (map (\<lambda>i. map (\<lambda>j. A ! i ! j + B ! i ! j)
              [0..<if 0 < rows then length (A ! 0) else 0]) [0..<rows])"
    then have i: "i < rows" by simp
    then have "length (A ! i) = cols" "length (A ! 0) = cols"
      using assms(1) by (simp_all add: mat_dims_nth)
    then show "map (\<lambda>i. map (\<lambda>j. A ! i ! j + B ! i ! j)
              [0..<if 0 < rows then length (A ! 0) else 0]) [0..<rows] ! i = mat_add A B ! i"
      using i by (simp add: mat_add_def len vec_add_def)
  qed
  moreover have "\<not> (length A \<noteq> length B \<or> (length A > 0 \<and> length (A ! 0) \<noteq> length (B ! 0)))"
  proof (cases "rows = 0")
    case True
    then show ?thesis by (simp add: len)
  next
    case False
    then have "length (A ! 0) = length (B ! 0)"
      using c by simp
    then show ?thesis by (simp add: len)
  qed
  ultimately show ?thesis
    by (simp add: recombine_shares_def Let_def len)
qed

lemma add_to_column_upto:
  assumes "mat_dims n k M" "n' \<le> n"
  shows "mat_dims n k (fold (\<lambda>item_idx M.
             M[item_idx := (M ! item_idx)[f := M ! item_idx ! f + res ! item_idx]]) [0..<n'] M)
    \<and> (\<forall>i<n. \<forall>g<k. fold (\<lambda>item_idx M.
             M[item_idx := (M ! item_idx)[f := M ! item_idx ! f + res ! item_idx]]) [0..<n'] M ! i ! g
           = M ! i ! g + (if i < n' \<and> g = f then res ! i else 0))"
  using assms(2)
proof (induction n')
  case 0
  then show ?case using assms(1) by simp
next
  case (Suc n')
  define M' where "M' = fold (\<lambda>item_idx M.
             M[item_idx := (M ! item_idx)[f := M ! item_idx ! f + res ! item_idx]]) [0..<n'] M"
  have IH: "mat_dims n k M'"
    "\<And>i g. i < n \<Longrightarrow> g < k \<Longrightarrow> M' ! i ! g = M ! i ! g + (if i < n' \<and> g = f then res ! i else 0)"
    using Suc by (simp_all add: M'_def)
  have n': "n' < n" using Suc.prems by simp
  have len: "length M' = n" "length (M' ! n') = k"
    using IH(1) n' by (simp_all add: mat_dims_length mat_dims_nth)
  have step: "fold (\<lambda>item_idx M.
             M[item_idx := (M ! item_idx)[f := M ! item_idx ! f + res ! item_idx]]) [0..<Suc n'] M
        = M'[n' := (M' ! n')[f := M' ! n' ! f + res ! n']]"
    by (simp add: M'_def)
  have dims: "mat_dims n k (M'[n' := (M' ! n')[f := M' ! n' ! f + res ! n']])"
    by (rule mat_dims_update [OF IH(1)]) (simp add: len)
  have "(M'[n' := (M' ! n')[f := M' ! n' ! f + res ! n']]) ! i ! g
          = M ! i ! g + (if i < Suc n' \<and> g = f then res ! i else 0)"
    if "i < n" "g < k" for i g
  proof (cases "i = n'")
    case True
    then show ?thesis
      using that len IH(2) [of n' g] IH(2) [of n' f] by (cases "g = f") simp_all
  next
    case False
    then show ?thesis
      using that len IH(2) [of i g] by (auto simp add: less_Suc_eq)
  qed
  then show ?case
    using dims by (simp only: step) blast
qed

lemma add_to_column_nth:
  assumes "mat_dims n k M" "i < n" "g < k"
  shows "add_to_column n f res M ! i ! g = M ! i ! g + (if g = f then res ! i else 0)"
  using add_to_column_upto [OF assms(1) order_refl, of f res] assms(2,3)
  by (simp add: add_to_column_def)

lemma add_to_column_dims:
  assumes "mat_dims n k M"
  shows "mat_dims n k (add_to_column n f res M)"
  using add_to_column_upto [OF assms(1) order_refl, of f res]
  by (simp add: add_to_column_def)

lemma fold_columns_upto:
  assumes "mat_dims n k M" "k' \<le> k"
  shows "mat_dims n k (fold (\<lambda>feat_idx M. add_to_column n feat_idx (res feat_idx) M) [0..<k'] M)
    \<and> (\<forall>i<n. \<forall>g<k. fold (\<lambda>feat_idx M. add_to_column n feat_idx (res feat_idx) M) [0..<k'] M ! i ! g
           = M ! i ! g + (if g < k' then res g ! i else 0))"
  using assms(2)
proof (induction k')
  case 0
  then show ?case using assms(1) by simp
next
  case (Suc k')
  define M' where "M' = fold (\<lambda>feat_idx M. add_to_column n feat_idx (res feat_idx) M) [0..<k'] M"
  have IH: "mat_dims n k M'"
    "\<And>i g. i < n \<Longrightarrow> g < k \<Longrightarrow> M' ! i ! g = M ! i ! g + (if g < k' then res g ! i else 0)"
    using Suc by (simp_all add: M'_def)
  have step: "fold (\<lambda>feat_idx M. add_to_column n feat_idx (res feat_idx) M) [0..<Suc k'] M
        = add_to_column n k' (res k') M'"
    by (simp add: M'_def)
  have "add_to_column n k' (res k') M' ! i ! g = M ! i ! g + (if g < Suc k' then res g ! i else 0)"
    if "i < n" "g < k" for i g
    using that add_to_column_nth [OF IH(1) that, of k' "res k'"] IH(2) [OF that]
    by (auto simp add: less_Suc_eq)
  then show ?case
    using add_to_column_dims [OF IH(1), of k' "res k'"] by (simp only: step) blast
qed

lemma item_update_nth:
  assumes "mat_dims n k M" "n < 2 ^ 32" "i < n" "g < k"
  shows "item_update (of_nat n) k upd key peer M ! i ! g
           = M ! i ! g + EvalFull (modified_key (upd ! g) key (peer ! g)) (ucast (of_nat n :: u32)) ! i"
  using fold_columns_upto [OF assms(1) order_refl,
      of "\<lambda>feat_idx. EvalFull (modified_key (upd ! feat_idx) key (peer ! feat_idx))
                       (ucast (of_nat n :: u32))"] assms(2-4)
  by (simp add: item_update_def unat_of_nat_u32)

lemma item_update_dims:
  assumes "mat_dims n k M" "n < 2 ^ 32"
  shows "mat_dims n k (item_update (of_nat n) k upd key peer M)"
  using fold_columns_upto [OF assms(1) order_refl,
      of "\<lambda>feat_idx. EvalFull (modified_key (upd ! feat_idx) key (peer ! feat_idx))
                       (ucast (of_nat n :: u32))"] assms(2)
  by (simp add: item_update_def unat_of_nat_u32)

lemma unat_ucast_u32_u64: "unat (ucast (x :: u32) :: u64) = unat x"
proof -
  have "unat x < 2 ^ 32"
    using unsigned_less [of x, where ?'a = nat] by simp
  then have "unat x < 2 ^ 64"
    by simp
  then show ?thesis
    by (simp add: unsigned_ucast_eq take_bit_nat_eq_self)
qed

lemma ucast_u32_u64_of_nat: "(ucast (x :: u32) :: u64) = of_nat (unat x)"
  by simp

lemma helper_lookup_material:
  fixes di :: u32 and doff :: i32 and r0 :: ShareVec and n :: nat
  assumes "0 < n" "n < 2 ^ 32" "length r0 = n"
  defines "lms \<equiv> generate_lookup_material (of_nat n) di r0 doff"
  defines "r \<equiv> unat di mod n"
  shows "r < n"
    and "rotation_base (fst lms) + rotation_base (snd lms) = of_nat r"
    and "length (rotation_vector (fst lms)) = n"
    and "length (rotation_vector (snd lms)) = n"
    and "vec_add (rotation_vector (fst lms)) (rotation_vector (snd lms)) = one_hot_vector n r"
proof -
  show "r < n"
    using assms(1) by (simp add: r_def)
  have ur: "unat (di mod (of_nat n :: u32)) = r"
    using assms(2) by (simp add: unat_mod unat_of_nat_u32 r_def)
  have idx: "(ucast (di mod (of_nat n :: u32)) :: i64) = of_nat r"
    using ucast_u32_u64_of_nat [of "di mod of_nat n"] by (simp add: ur)
  have ui: "unat (ucast (di mod (of_nat n :: u32)) :: i64) = r"
    by (simp add: unat_ucast_u32_u64 ur)
  show "rotation_base (fst lms) + rotation_base (snd lms) = of_nat r"
    by (simp add: lms_def generate_lookup_material_def Let_def idx)
  show "length (rotation_vector (fst lms)) = n"
    using assms(3) by (simp add: lms_def generate_lookup_material_def Let_def)
  show "length (rotation_vector (snd lms)) = n"
    using assms(2) by (simp add: lms_def generate_lookup_material_def Let_def
        one_hot_vector_def unat_of_nat_u32)
  have "vec_add r0 (vec_sub (one_hot_vector n r) r0) = one_hot_vector n r"
    using assms(3) by (intro vec_eqI) (simp_all add: one_hot_vector_def)
  then show "vec_add (rotation_vector (fst lms)) (rotation_vector (snd lms)) = one_hot_vector n r"
    using assms(2) by (simp add: lms_def generate_lookup_material_def Let_def ui unat_of_nat_u32)
qed

lemma scalar_vector_material_of_sum:
  assumes "scalar_vector_draw_ok (length v0) d" "length v1 = length v0"
  shows "vec_add (fst (secure_scalar_vector_pair a0 v0 a1 v1 (scalar_vector_material_of d)))
           (snd (secure_scalar_vector_pair a0 v0 a1 v1 (scalar_vector_material_of d)))
         = vec_scalar_mul (vec_add v0 v1) (a0 + a1)"
    and "length (fst (secure_scalar_vector_pair a0 v0 a1 v1 (scalar_vector_material_of d)))
           = length v0"
    and "length (snd (secure_scalar_vector_pair a0 v0 a1 v1 (scalar_vector_material_of d)))
           = length v0"
proof -
  obtain A0 A1 B0 B1 Rv where d: "d = (A0, A1, B0, B1, Rv)"
    by (cases d) auto
  have len: "length B0 = length v0" "length B1 = length v0" "length Rv = length v0"
    using assms(1) by (simp_all add: d scalar_vector_draw_ok_def)
  show "vec_add (fst (secure_scalar_vector_pair a0 v0 a1 v1 (scalar_vector_material_of d)))
           (snd (secure_scalar_vector_pair a0 v0 a1 v1 (scalar_vector_material_of d)))
         = vec_scalar_mul (vec_add v0 v1) (a0 + a1)"
    using secure_scalar_vector_sum [OF assms(2) len, of a0 A0 A1 a1]
    by (simp add: d scalar_vector_material_of_def secure_scalar_vector_pair_def
        generate_scalar_vector_material_def scalar_vector_masked_def)
  show "length (fst (secure_scalar_vector_pair a0 v0 a1 v1 (scalar_vector_material_of d)))
           = length v0"
    by (simp add: secure_scalar_vector_pair_def compute_secure_scalar_vector_product_def)
  show "length (snd (secure_scalar_vector_pair a0 v0 a1 v1 (scalar_vector_material_of d)))
           = length v0"
    using assms(2) by (simp add: secure_scalar_vector_pair_def compute_secure_scalar_vector_product_def)
qed

lemma dot_material_of_pair_sum:
  assumes "dot_draw_ok (length x0) d"
    and "length y0 = length x0" "length x1 = length x0" "length y1 = length x0"
  shows "fst (secure_inner_product_pair x0 y0 x1 y1 (dot_material_of d))
         + snd (secure_inner_product_pair x0 y0 x1 y1 (dot_material_of d))
         = vec_dot_product (vec_add x0 x1) (vec_add y0 y1)"
  using dot_material_of_sum [OF assms] by (simp add: secure_inner_product_pair_def)

lemma dot_product_vec:
  "length u = length v \<Longrightarrow> dot_product u v = Inr (vec_dot_product u v)"
  by (simp add: dot_product_def vec_dot_product_def)

lemma item_update_pair_nth:
  assumes dims: "mat_dims n k V0" "mat_dims n k V1" and n: "n < 2 ^ 32"
    and gen: "generateDPF (ucast sel) 0 (ucast (of_nat n :: u32)) ds0 ds1 dR = (key0, key1)"
    and sel: "unat (sel :: u32) < n"
    and i: "i < n" and g: "g < k"
  shows "item_update (of_nat n) k upd0 key0 (item_update_masked k upd1 key1) V0 ! i ! g
         + item_update (of_nat n) k upd1 key1 (item_update_masked k upd0 key0) V1 ! i ! g
         = V0 ! i ! g + V1 ! i ! g + (if i = unat sel then upd0 ! g + upd1 ! g else 0)"
proof -
  define N :: u64 where "N = ucast (of_nat n :: u32)"
  have uN: "unat N = n"
    using n by (simp add: N_def unat_ucast_u32_u64 unat_of_nat_u32)
  define t :: u64 where "t = of_nat i"
  have ut: "unat t = i"
    unfolding t_def using i uN unat_of_nat_index [of i N] by simp
  have tN: "t < N"
    using i by (simp add: word_less_nat_alt ut uN)
  have jN: "(ucast sel :: u64) < N"
    using sel by (simp add: word_less_nat_alt uN unat_ucast_u32_u64)
  have eq: "(t = ucast sel) = (i = unat sel)"
    using ut by (auto simp add: word_unat_eq_iff unat_ucast_u32_u64)
  have sum: "evalDPF (modified_key (upd0 ! g) key0 (masked_update (upd1 ! g) key1)) t N
         + evalDPF (modified_key (upd1 ! g) key1 (masked_update (upd0 ! g) key0)) t N
         = (if t = ucast sel then upd0 ! g + upd1 ! g - 0 else 0)"
    by (rule dpf_repaired_sum [OF gen [folded N_def] tN jN])
  have m: "item_update_masked k upd key ! g = masked_update (upd ! g) key" for upd key
    using g by (simp add: item_update_masked_def)
  have e: "EvalFull key N ! i = evalDPF key t N" for key
    using i by (simp add: nth_EvalFull uN t_def)
  have l0: "item_update (of_nat n) k upd0 key0 (item_update_masked k upd1 key1) V0 ! i ! g
      = V0 ! i ! g + evalDPF (modified_key (upd0 ! g) key0 (masked_update (upd1 ! g) key1)) t N"
    by (simp only: item_update_nth [OF dims(1) n i g] m e N_def [symmetric])
  have l1: "item_update (of_nat n) k upd1 key1 (item_update_masked k upd0 key0) V1 ! i ! g
      = V1 ! i ! g + evalDPF (modified_key (upd1 ! g) key1 (masked_update (upd0 ! g) key0)) t N"
    by (simp only: item_update_nth [OF dims(2) n i g] m e N_def [symmetric])
  have "item_update (of_nat n) k upd0 key0 (item_update_masked k upd1 key1) V0 ! i ! g
         + item_update (of_nat n) k upd1 key1 (item_update_masked k upd0 key0) V1 ! i ! g
      = V0 ! i ! g + V1 ! i ! g
        + (evalDPF (modified_key (upd0 ! g) key0 (masked_update (upd1 ! g) key1)) t N
           + evalDPF (modified_key (upd1 ! g) key1 (masked_update (upd0 ! g) key0)) t N)"
    by (simp only: l0 l1 ac_simps)
  also have "\<dots> = V0 ! i ! g + V1 ! i ! g + (if t = ucast sel then upd0 ! g + upd1 ! g - 0 else 0)"
    by (simp only: sum)
  also have "\<dots> = V0 ! i ! g + V1 ! i ! g + (if i = unat sel then upd0 ! g + upd1 ! g else 0)"
    by (simp only: eq diff_zero)
  finally show ?thesis .
qed

lemma generate_query_facts:
  assumes "generate_query num_items c = (q0, q1)"
  shows "user_index q0 = selected_user c" "user_index q1 = selected_user c"
    and "item_share q0 + item_share q1 = of_nat (unat (selected_item c))"
    and "generateDPF (ucast (selected_item c)) 0 (ucast num_items)
           (draw_seed0 c) (draw_seed1 c) (draw_mask c) = (dpf_key q0, dpf_key q1)"
proof -
  have q: "q0 = \<lparr>user_index = selected_user c, item_share = scast (draw_item_share c),
        dpf_key = fst (generateDPF (ucast (selected_item c)) 0 (ucast num_items)
                         (draw_seed0 c) (draw_seed1 c) (draw_mask c))\<rparr>"
    "q1 = \<lparr>user_index = selected_user c,
        item_share = ucast (selected_item c) - scast (draw_item_share c),
        dpf_key = snd (generateDPF (ucast (selected_item c)) 0 (ucast num_items)
                         (draw_seed0 c) (draw_seed1 c) (draw_mask c))\<rparr>"
    using assms by (simp_all add: generate_query_def Let_def)
  show "user_index q0 = selected_user c" "user_index q1 = selected_user c"
    by (simp_all add: q)
  show "item_share q0 + item_share q1 = of_nat (unat (selected_item c))"
    by (simp add: q)
  show "generateDPF (ucast (selected_item c)) 0 (ucast num_items)
           (draw_seed0 c) (draw_seed1 c) (draw_mask c) = (dpf_key q0, dpf_key q1)"
    by (simp add: q)
qed

lemma process_query_pair_unfold:
  assumes "user_index q0 = su" "user_index q1 = su"
    and "prof = retrieve_item_profile_pair (item_share q0) V0 (item_share q1) V1
                  (lookup_mat m0, lookup_mat m1) (lookup_dot_mats m0) (lookup_dot_mats m1)"
    and "ips = secure_inner_product_pair (U0 ! unat su) (fst prof) (U1 ! unat su) (snd prof)
                 (profile_dot_mat m0, profile_dot_mat m1)"
    and "sc = secure_scalar_vector_pair (fst ips) (fst prof) (snd ips) (snd prof)
                (scaled_mat m0, scaled_mat m1)"
    and "upd = secure_scalar_vector_pair (0 - fst ips) (U0 ! unat su) (1 - snd ips) (U1 ! unat su)
                 (update_mat m0, update_mat m1)"
  shows "process_query_pair num_items feature_dim ((U0, V0), (U1, V1)) ((q0, q1), (m0, m1))
     = ((U0[unat su := vec_sub (vec_add (U0 ! unat su) (fst prof)) (fst sc)],
         item_update num_items (unat feature_dim) (fst upd) (dpf_key q0)
           (item_update_masked (unat feature_dim) (snd upd) (dpf_key q1)) V0),
        (U1[unat su := vec_sub (vec_add (U1 ! unat su) (snd prof)) (snd sc)],
         item_update num_items (unat feature_dim) (snd upd) (dpf_key q1)
           (item_update_masked (unat feature_dim) (fst upd) (dpf_key q0)) V1))"
  by (simp add: process_query_pair_def Let_def assms)

lemma mat_add_row:
  assumes "length A = rows" "i < rows"
  shows "mat_add A B ! i = vec_add (A ! i) (B ! i)"
  using assms by (simp add: mat_add_def)

lemma apply_cleartext_update_unfold:
  assumes "mat_dims m k U" "mat_dims n k V" "unat su < m" "unat si < n"
  shows "apply_cleartext_update (U, V) (su, si) =
     Inr (U[unat su := map (\<lambda>f. U ! unat su ! f
                  + V ! unat si ! f * (1 - vec_dot_product (U ! unat su) (V ! unat si))) [0..<k]],
          V[unat si := map (\<lambda>f. V ! unat si ! f
                  + U ! unat su ! f * (1 - vec_dot_product (U ! unat su) (V ! unat si))) [0..<k]])"
proof -
  have len: "length U = m" "length V = n" "length (U ! unat su) = k" "length (V ! unat si) = k"
    using assms by (simp_all add: mat_dims_length mat_dims_nth)
  have dp: "dot_product (U ! unat su) (V ! unat si)
              = Inr (vec_dot_product (U ! unat su) (V ! unat si))"
    by (rule dot_product_vec) (simp add: len)
  have a: "map (\<lambda>f. U ! unat su ! f + map (\<lambda>f. V ! unat si ! f * delta) [0..<k] ! f) [0..<k]
         = map (\<lambda>f. U ! unat su ! f + V ! unat si ! f * delta) [0..<k]" for delta
    by (rule map_cong) simp_all
  have b: "map (\<lambda>f. V ! unat si ! f + map (\<lambda>f. U ! unat su ! f * delta) [0..<k] ! f) [0..<k]
         = map (\<lambda>f. V ! unat si ! f + U ! unat su ! f * delta) [0..<k]" for delta
    by (rule map_cong) simp_all
  show ?thesis
    using assms(3,4) by (simp add: apply_cleartext_update_def Let_def len dp a b)
qed

lemma helper_query_material_fields:
  "lookup_mat (fst (helper_query_material num_items d))
     = fst (generate_lookup_material num_items (draw_random_index d) (draw_r0_shares d)
              (draw_rotation_offset_share d))"
  "lookup_mat (snd (helper_query_material num_items d))
     = snd (generate_lookup_material num_items (draw_random_index d) (draw_r0_shares d)
              (draw_rotation_offset_share d))"
  "lookup_dot_mats (fst (helper_query_material num_items d))
     = map fst (map dot_material_of (draw_lookup_dots d))"
  "lookup_dot_mats (snd (helper_query_material num_items d))
     = map snd (map dot_material_of (draw_lookup_dots d))"
  "(profile_dot_mat (fst (helper_query_material num_items d)),
    profile_dot_mat (snd (helper_query_material num_items d)))
     = dot_material_of (draw_profile_dot d)"
  "(scaled_mat (fst (helper_query_material num_items d)),
    scaled_mat (snd (helper_query_material num_items d)))
     = scalar_vector_material_of (draw_scaled d)"
  "(update_mat (fst (helper_query_material num_items d)),
    update_mat (snd (helper_query_material num_items d)))
     = scalar_vector_material_of (draw_update d)"
  by (simp_all add: helper_query_material_def Let_def)

lemma process_query_pair_step:
  fixes c :: query_choice and d :: query_draws
  assumes bounds: "0 < n" "n < 2 ^ 32" "k < 2 ^ 32"
    and dims: "mat_dims m k U0" "mat_dims m k U1" "mat_dims n k V0" "mat_dims n k V1"
    and c: "query_choice_ok m n c" and d: "query_draws_ok n k d"
  defines "st' \<equiv> process_query_pair (of_nat n) (of_nat k) ((U0, V0), (U1, V1))
                    (generate_query (of_nat n) c, helper_query_material (of_nat n) d)"
  shows "mat_dims m k (fst (fst st'))" "mat_dims m k (fst (snd st'))"
    and "mat_dims n k (snd (fst st'))" "mat_dims n k (snd (snd st'))"
    and "apply_cleartext_update (mat_add U0 U1, mat_add V0 V1) (cleartext_query c)
           = Inr (mat_add (fst (fst st')) (fst (snd st')), mat_add (snd (fst st')) (snd (snd st')))"
proof -
  define su where "su = selected_user c"
  define si where "si = selected_item c"
  define i where "i = unat su"
  define j where "j = unat si"
  have i: "i < m" and j: "j < n"
    using c by (simp_all add: query_choice_ok_def i_def j_def su_def si_def)
  obtain q0 q1 where gq: "generate_query (of_nat n) c = (q0, q1)"
    by (cases "generate_query (of_nat n) c") auto
  note q = generate_query_facts [OF gq, folded su_def si_def]
  define m0 where "m0 = fst (helper_query_material (of_nat n) d)"
  define m1 where "m1 = snd (helper_query_material (of_nat n) d)"
  note hm = helper_query_material_fields [of "of_nat n" d, folded m0_def m1_def]
  have dr: "length (draw_r0_shares d) = n" "length (draw_lookup_dots d) = k"
    "list_all (dot_draw_ok n) (draw_lookup_dots d)" "dot_draw_ok k (draw_profile_dot d)"
    "scalar_vector_draw_ok k (draw_scaled d)" "scalar_vector_draw_ok k (draw_update d)"
    using d by (simp_all add: query_draws_ok_def)
  have lenU: "length U0 = m" "length U1 = m" "length (U0 ! i) = k" "length (U1 ! i) = k"
    using dims i by (simp_all add: mat_dims_length mat_dims_nth)
  have lenV: "length V0 = n" "length V1 = n"
    using dims by (simp_all add: mat_dims_length)
  have rowsV: "\<And>p. p < n \<Longrightarrow> length (V0 ! p) = k" "\<And>p. p < n \<Longrightarrow> length (V1 ! p) = k"
    using dims by (simp_all add: mat_dims_nth)
  define prof where "prof = retrieve_item_profile_pair (item_share q0) V0 (item_share q1) V1
                  (lookup_mat m0, lookup_mat m1) (lookup_dot_mats m0) (lookup_dot_mats m1)"
  define ips where "ips = secure_inner_product_pair (U0 ! i) (fst prof) (U1 ! i)
                 (snd prof) (profile_dot_mat m0, profile_dot_mat m1)"
  define sc where "sc = secure_scalar_vector_pair (fst ips) (fst prof) (snd ips) (snd prof)
                (scaled_mat m0, scaled_mat m1)"
  define upd where "upd = secure_scalar_vector_pair (0 - fst ips) (U0 ! i) (1 - snd ips)
                 (U1 ! i) (update_mat m0, update_mat m1)"
  have st': "st' = ((U0[i := vec_sub (vec_add (U0 ! i) (fst prof)) (fst sc)],
         item_update (of_nat n) k (fst upd) (dpf_key q0) (item_update_masked k (snd upd) (dpf_key q1)) V0),
        (U1[i := vec_sub (vec_add (U1 ! i) (snd prof)) (snd sc)],
         item_update (of_nat n) k (snd upd) (dpf_key q1) (item_update_masked k (fst upd) (dpf_key q0)) V1))"
    using process_query_pair_unfold [OF q(1) q(2) prof_def ips_def [unfolded i_def] sc_def
        upd_def [unfolded i_def], of "of_nat n" "of_nat k"] bounds(3)
    by (simp add: st'_def gq m0_def m1_def i_def unat_of_nat_u32)
  \<comment> \<open>the oblivious lookup\<close>
  note lk = helper_lookup_material(1) [OF bounds(1,2) dr(1), where di = "draw_random_index d"]
    helper_lookup_material(2-5) [OF bounds(1,2) dr(1), where di = "draw_random_index d"
      and doff = "draw_rotation_offset_share d"]
  note rp = retrieve_pair_sum [OF lenV bounds(1,2) rowsV bounds(3) j q(3) [folded j_def]
      lk dr(2,3)]
  have prof1: "vec_add (fst prof) (snd prof) = vec_add (V0 ! j) (V1 ! j)"
    unfolding prof_def hm(1-4) by (rule rp(1))
  have prof2: "length (fst prof) = k"
    unfolding prof_def hm(1-4) by (rule rp(2))
  have prof3: "length (snd prof) = k"
    unfolding prof_def hm(1-4) by (rule rp(3))
  note prof = prof1 prof2 prof3
  \<comment> \<open>the inner product and the two scalar-vector products\<close>
  define u where "u = vec_add (U0 ! i) (U1 ! i)"
  define v where "v = vec_add (V0 ! j) (V1 ! j)"
  define dot where "dot = vec_dot_product u v"
  have lu: "length u = k" and lv: "length v = k"
    using lenU rowsV(1) [OF j] by (simp_all add: u_def v_def)
  have ips: "fst ips + snd ips = dot"
    unfolding ips_def hm(5) dot_def u_def v_def prof(1) [symmetric]
    by (rule dot_material_of_pair_sum) (simp_all add: lenU prof dr)
  have ok_sc: "scalar_vector_draw_ok (length (fst prof)) (draw_scaled d)"
    and l_sc: "length (snd prof) = length (fst prof)"
    by (simp_all add: prof dr)
  note s_sc = scalar_vector_material_of_sum [OF ok_sc l_sc, of "fst ips" "snd ips",
      folded hm(6), folded sc_def]
  have sc: "vec_add (fst sc) (snd sc) = vec_scalar_mul v dot"
    "length (fst sc) = k" "length (snd sc) = k"
    using s_sc by (simp_all only: prof ips v_def)
  have ok_upd: "scalar_vector_draw_ok (length (U0 ! i)) (draw_update d)"
    and l_upd: "length (U1 ! i) = length (U0 ! i)"
    by (simp_all add: lenU dr)
  note s_upd = scalar_vector_material_of_sum [OF ok_upd l_upd, of "0 - fst ips" "1 - snd ips",
      folded hm(7), folded upd_def]
  have compl: "(0 - fst ips) + (1 - snd ips) = 1 - dot"
    using ips by (simp add: algebra_simps)
  have upd: "vec_add (fst upd) (snd upd) = vec_scalar_mul u (1 - dot)"
    "length (fst upd) = k" "length (snd upd) = k"
    using s_upd by (simp_all only: compl lenU u_def)
  \<comment> \<open>dimensions\<close>
  show d0: "mat_dims m k (fst (fst st'))"
    unfolding st' by (simp add: mat_dims_update [OF dims(1)] lenU)
  show d1: "mat_dims m k (fst (snd st'))"
    unfolding st' by (simp add: mat_dims_update [OF dims(2)] lenU)
  show d2: "mat_dims n k (snd (fst st'))"
    unfolding st' by (simp add: item_update_dims [OF dims(3) bounds(2)])
  show d3: "mat_dims n k (snd (snd st'))"
    unfolding st' by (simp add: item_update_dims [OF dims(4) bounds(2)])
  \<comment> \<open>the cleartext step on the recombined matrices\<close>
  have dU: "mat_dims m k (mat_add U0 U1)" and dV: "mat_dims n k (mat_add V0 V1)"
    by (rule mat_add_dims [OF dims(1)], rule mat_add_dims [OF dims(3)])
  have rowU: "mat_add U0 U1 ! i = u" and rowV: "mat_add V0 V1 ! j = v"
    using i j by (simp_all add: mat_add_row lenU lenV u_def v_def)
  have clear: "apply_cleartext_update (mat_add U0 U1, mat_add V0 V1) (cleartext_query c)
     = Inr ((mat_add U0 U1)[i := map (\<lambda>f. u ! f + v ! f * (1 - dot)) [0..<k]],
            (mat_add V0 V1)[j := map (\<lambda>f. v ! f + u ! f * (1 - dot)) [0..<k]])"
    using apply_cleartext_update_unfold [OF dU dV, of su si] i j
    by (simp add: cleartext_query_def su_def [symmetric] si_def [symmetric]
        i_def [symmetric] j_def [symmetric] rowU rowV dot_def)
  have U_eq: "(mat_add U0 U1)[i := map (\<lambda>f. u ! f + v ! f * (1 - dot)) [0..<k]]
                = mat_add (fst (fst st')) (fst (snd st'))"
  proof (rule mat_eqI [where rows = m and cols = k])
    show "mat_dims m k ((mat_add U0 U1)[i := map (\<lambda>f. u ! f + v ! f * (1 - dot)) [0..<k]])"
      by (rule mat_dims_update [OF dU]) simp
    show "mat_dims m k (mat_add (fst (fst st')) (fst (snd st')))"
      by (rule mat_add_dims [OF d0])
  next
    fix p f
    assume p: "p < m" and f: "f < k"
    show "(mat_add U0 U1)[i := map (\<lambda>f. u ! f + v ! f * (1 - dot)) [0..<k]] ! p ! f
            = mat_add (fst (fst st')) (fst (snd st')) ! p ! f"
    proof (cases "p = i")
      case True
      have "fst prof ! f + snd prof ! f = v ! f"
        using prof f by (metis nth_vec_add v_def)
      moreover have "fst sc ! f + snd sc ! f = v ! f * dot"
        using sc f lv by (metis nth_vec_add nth_vec_scalar_mul)
      moreover have "u ! f = U0 ! i ! f + U1 ! i ! f"
        using f lenU by (simp add: u_def)
      ultimately have e: "(U0 ! i ! f + fst prof ! f - fst sc ! f)
                        + (U1 ! i ! f + snd prof ! f - snd sc ! f)
                        = u ! f + v ! f * (1 - dot)"
        by (simp add: algebra_simps)
      have "mat_add (fst (fst st')) (fst (snd st')) ! p ! f
              = fst (fst st') ! p ! f + fst (snd st') ! p ! f"
        by (rule mat_add_nth [OF d0 p f])
      also have "\<dots> = (U0 ! i ! f + fst prof ! f - fst sc ! f)
                        + (U1 ! i ! f + snd prof ! f - snd sc ! f)"
        using True i f lenU prof sc by (simp add: st')
      also note e
      finally show ?thesis
        using True i f by (simp add: mat_dims_length [OF dU])
    next
      case False
      have "mat_add (fst (fst st')) (fst (snd st')) ! p ! f
              = fst (fst st') ! p ! f + fst (snd st') ! p ! f"
        by (rule mat_add_nth [OF d0 p f])
      also have "\<dots> = U0 ! p ! f + U1 ! p ! f"
        using False by (simp add: st')
      also have "\<dots> = mat_add U0 U1 ! p ! f"
        by (rule mat_add_nth [OF dims(1) p f, symmetric])
      finally show ?thesis
        using False by simp
    qed
  qed
  have V_eq: "(mat_add V0 V1)[j := map (\<lambda>f. v ! f + u ! f * (1 - dot)) [0..<k]]
                = mat_add (snd (fst st')) (snd (snd st'))"
  proof (rule mat_eqI [where rows = n and cols = k])
    show "mat_dims n k ((mat_add V0 V1)[j := map (\<lambda>f. v ! f + u ! f * (1 - dot)) [0..<k]])"
      by (rule mat_dims_update [OF dV]) simp
    show "mat_dims n k (mat_add (snd (fst st')) (snd (snd st')))"
      by (rule mat_add_dims [OF d2])
  next
    fix p g
    assume p: "p < n" and g: "g < k"
    have "fst upd ! g + snd upd ! g = u ! g * (1 - dot)"
      using upd g lu by (metis nth_vec_add nth_vec_scalar_mul)
    then have sum: "snd (fst st') ! p ! g + snd (snd st') ! p ! g
            = V0 ! p ! g + V1 ! p ! g + (if p = j then u ! g * (1 - dot) else 0)"
      using item_update_pair_nth [OF dims(3,4) bounds(2) q(4) j [unfolded j_def] p g,
          of "fst upd" "snd upd"]
      by (simp add: st' j_def)
    have ma: "mat_add (snd (fst st')) (snd (snd st')) ! p ! g
            = V0 ! p ! g + V1 ! p ! g + (if p = j then u ! g * (1 - dot) else 0)"
      using mat_add_nth [OF d2 p g, of "snd (snd st')"] by (simp only: sum)
    show "(mat_add V0 V1)[j := map (\<lambda>f. v ! f + u ! f * (1 - dot)) [0..<k]] ! p ! g
            = mat_add (snd (fst st')) (snd (snd st')) ! p ! g"
    proof (cases "p = j")
      case True
      have "v ! g = V0 ! j ! g + V1 ! j ! g"
        using g rowsV(1) [OF j] by (simp add: v_def)
      moreover have "mat_add (snd (fst st')) (snd (snd st')) ! j ! g
                       = V0 ! j ! g + V1 ! j ! g + u ! g * (1 - dot)"
        using ma True by simp
      ultimately show ?thesis
        using True j g by (simp add: mat_dims_length [OF dV])
    next
      case False
      have "mat_add (snd (fst st')) (snd (snd st')) ! p ! g = V0 ! p ! g + V1 ! p ! g"
        using ma False by simp
      also have "\<dots> = mat_add V0 V1 ! p ! g"
        by (rule mat_add_nth [OF dims(3) p g, symmetric])
      finally show ?thesis
        using False by simp
    qed
  qed
  show "apply_cleartext_update (mat_add U0 U1, mat_add V0 V1) (cleartext_query c)
           = Inr (mat_add (fst (fst st')) (fst (snd st')), mat_add (snd (fst st')) (snd (snd st')))"
    by (simp only: clear U_eq V_eq)
qed

lemma share_to_u32_add: "share_to_u32 (a + b) = share_to_u32 a + share_to_u32 b"
proof -
  have d: "(2 :: int) ^ 32 dvd 2 ^ 64"
    by (rule le_imp_power_dvd) simp
  have "uint (share_to_u32 (a + b)) = ((uint a + uint b) mod 2 ^ 64) mod 2 ^ 32"
    by (simp add: uint_share_to_u32 uint_word_ariths)
  also have "\<dots> = (uint a + uint b) mod 2 ^ 32"
    by (rule mod_mod_cancel [OF d])
  also have "\<dots> = (uint a mod 2 ^ 32 + uint b mod 2 ^ 32) mod 2 ^ 32"
    by (rule mod_add_eq [symmetric])
  also have "\<dots> = uint (share_to_u32 a + share_to_u32 b)"
    by (simp add: uint_share_to_u32 uint_word_ariths)
  finally show ?thesis
    by (rule word_uint_eqI)
qed

lemma saved_recombined:
  assumes "mat_dims rows cols A" "mat_dims rows cols B" "rows < 2 ^ 32" "cols < 2 ^ 32"
  shows "recombine_updated (saved_matrix A (of_nat rows) (of_nat cols))
           (saved_matrix B (of_nat rows) (of_nat cols)) rows cols
         = convert_to_uint32_matrix (mat_add A B)"
proof (rule nth_equalityI)
  show "length (recombine_updated (saved_matrix A (of_nat rows) (of_nat cols))
           (saved_matrix B (of_nat rows) (of_nat cols)) rows cols)
        = length (convert_to_uint32_matrix (mat_add A B))"
    using assms(1) by (simp add: recombine_updated_def convert_to_uint32_matrix_def mat_add_def
        mat_dims_length)
next
  fix i
  assume "i < length (recombine_updated (saved_matrix A (of_nat rows) (of_nat cols))
           (saved_matrix B (of_nat rows) (of_nat cols)) rows cols)"
  then have i: "i < rows"
    by (simp add: recombine_updated_def)
  have len: "length A = rows" "length (A ! i) = cols" "length (B ! i) = cols"
    using assms(1,2) i by (simp_all add: mat_dims_length mat_dims_nth)
  have "map (\<lambda>f. map (\<lambda>f. share_to_u32 (A ! i ! f)) [0..<cols] ! f
                  + map (\<lambda>f. share_to_u32 (B ! i ! f)) [0..<cols] ! f) [0..<cols]
          = map share_to_u32 (vec_add (A ! i) (B ! i))"
    by (rule nth_equalityI) (simp_all add: len share_to_u32_add)
  then show "recombine_updated (saved_matrix A (of_nat rows) (of_nat cols))
           (saved_matrix B (of_nat rows) (of_nat cols)) rows cols ! i
        = convert_to_uint32_matrix (mat_add A B) ! i"
    using i assms(3,4)
    by (simp add: recombine_updated_def saved_matrix_def convert_to_uint32_matrix_def mat_add_def
        len unat_of_nat_u32)
qed

lemma run_queries:
  fixes choices :: "query_choice list" and draws :: "query_draws list"
  assumes bounds: "0 < n" "n < 2 ^ 32" "k < 2 ^ 32"
    and len: "length draws = length choices"
    and ok: "list_all (query_choice_ok m n) choices" "list_all (query_draws_ok n k) draws"
    and dims: "mat_dims m k U0" "mat_dims m k U1" "mat_dims n k V0" "mat_dims n k V1"
  defines "final \<equiv> fold (\<lambda>inp s. process_query_pair (of_nat n) (of_nat k) s inp)
                      (zip (map (generate_query (of_nat n)) choices)
                           (map (helper_query_material (of_nat n)) draws))
                      ((U0, V0), (U1, V1))"
  shows "mat_dims m k (fst (fst final)) \<and> mat_dims m k (fst (snd final))
       \<and> mat_dims n k (snd (fst final)) \<and> mat_dims n k (snd (snd final))
       \<and> apply_cleartext_updates (mat_add U0 U1, mat_add V0 V1) (map cleartext_query choices)
           = Inr (mat_add (fst (fst final)) (fst (snd final)),
                  mat_add (snd (fst final)) (snd (snd final)))"
  unfolding final_def using len ok dims
proof (induction draws choices arbitrary: U0 U1 V0 V1 rule: list_induct2)
  case Nil
  then show ?case by simp
next
  case (Cons d ds c cs)
  define st' where "st' = process_query_pair (of_nat n) (of_nat k) ((U0, V0), (U1, V1))
                    (generate_query (of_nat n) c, helper_query_material (of_nat n) d)"
  have c: "query_choice_ok m n c" and cs: "list_all (query_choice_ok m n) cs"
    and d: "query_draws_ok n k d" and ds: "list_all (query_draws_ok n k) ds"
    using Cons.prems by simp_all
  note step = process_query_pair_step [OF bounds Cons.prems(3-6) c d, folded st'_def]
  have st: "st' = ((fst (fst st'), snd (fst st')), (fst (snd st'), snd (snd st')))"
    by simp
  note IH = Cons.IH [OF cs ds step(1,2,3,4)]
  have f: "fold (\<lambda>inp s. process_query_pair (of_nat n) (of_nat k) s inp)
             (zip (map (generate_query (of_nat n)) (c # cs))
                  (map (helper_query_material (of_nat n)) (d # ds)))
             ((U0, V0), (U1, V1))
         = fold (\<lambda>inp s. process_query_pair (of_nat n) (of_nat k) s inp)
             (zip (map (generate_query (of_nat n)) cs)
                  (map (helper_query_material (of_nat n)) ds))
             ((fst (fst st'), snd (fst st')), (fst (snd st'), snd (snd st')))"
    by (simp add: st'_def)
  show ?case
    unfolding f using IH by (simp add: step(5))
qed

text \<open>
  C1.  Both servers start from share matrices \<open>U0, U1\<close> (\<open>m\<close> by \<open>k\<close>) and \<open>V0, V1\<close>
  (\<open>n\<close> by \<open>k\<close>), process any stream of generated queries (user below \<open>m\<close>, item below
  \<open>n\<close>) with the helper's material from any draws of the right lengths, and save their
  shares.  The element-wise sums of the saved U files and of the saved V files, taken in
  \<open>uint32_t\<close>, are the cleartext iteration of the update rule on \<open>U0 + U1\<close> and
  \<open>V0 + V1\<close>, reduced to 32 bits; the cleartext iteration raises no exception.
\<close>

theorem end_to_end_simulation_equivalence:
  assumes "m < 2 ^ 32" "0 < n" "n < 2 ^ 32" "k < 2 ^ 32"
    and "mat_dims m k U0" "mat_dims m k U1" "mat_dims n k V0" "mat_dims n k V1"
    and "length draws = length choices"
    and "list_all (query_choice_ok m n) choices" "list_all (query_draws_ok n k) draws"
  shows "cleartext_simulation U0 U1 V0 V1 (map cleartext_query choices)
         = Inr (mpc_recombined m n k
                  (execute_protocol_pair (of_nat m) (of_nat n) (of_nat k) ((U0, V0), (U1, V1))
                     (map (generate_query (of_nat n)) choices)
                     (map (helper_query_material (of_nat n)) draws)))"
proof -
  define final where "final = fold (\<lambda>inp s. process_query_pair (of_nat n) (of_nat k) s inp)
                      (zip (map (generate_query (of_nat n)) choices)
                           (map (helper_query_material (of_nat n)) draws))
                      ((U0, V0), (U1, V1))"
  note run = run_queries [OF assms(2-4) assms(9-11) assms(5-8), folded final_def]
  have dU0: "mat_dims m k (fst (fst final))" and dU1: "mat_dims m k (fst (snd final))"
    and dV0: "mat_dims n k (snd (fst final))" and dV1: "mat_dims n k (snd (snd final))"
    and clear: "apply_cleartext_updates (mat_add U0 U1, mat_add V0 V1) (map cleartext_query choices)
           = Inr (mat_add (fst (fst final)) (fst (snd final)),
                  mat_add (snd (fst final)) (snd (snd final)))"
    using run by simp_all
  have sim: "cleartext_simulation U0 U1 V0 V1 (map cleartext_query choices)
      = Inr (convert_to_uint32_matrix (mat_add (fst (fst final)) (fst (snd final))),
             convert_to_uint32_matrix (mat_add (snd (fst final)) (snd (snd final))))"
    by (simp add: cleartext_simulation_def recombine_shares_mat_add [OF assms(5,6)]
        recombine_shares_mat_add [OF assms(7,8)] clear)
  have mpc: "mpc_recombined m n k
                  (execute_protocol_pair (of_nat m) (of_nat n) (of_nat k) ((U0, V0), (U1, V1))
                     (map (generate_query (of_nat n)) choices)
                     (map (helper_query_material (of_nat n)) draws))
      = (convert_to_uint32_matrix (mat_add (fst (fst final)) (fst (snd final))),
         convert_to_uint32_matrix (mat_add (snd (fst final)) (snd (snd final))))"
    by (simp add: mpc_recombined_def execute_protocol_pair_def Let_def final_def [symmetric]
        saved_recombined [OF dU0 dU1 assms(1,4)] saved_recombined [OF dV0 dV1 assms(3,4)])
  show ?thesis
    by (simp only: sim mpc)
qed

lemma cleartext_simulation_example:
  "cleartext_simulation [[1]] [[2]] [[1], [0]] [[0], [1]] [(0, 0)]
     = Inr ([[1]], [[4294967291], [1]])"
  by (simp add: cleartext_simulation_def recombine_shares_def apply_cleartext_update_def
      dot_product_def convert_to_uint32_matrix_def share_to_u32_def upt_0_2 Let_def)

theorem end_to_end_simulation_equivalence_witness:
  "mpc_recombined 1 2 1
     (execute_protocol_pair 1 2 1 (([[1]], [[1], [0]]), ([[2]], [[0], [1]]))
        (map (generate_query 2) [small_run_choice])
        (map (helper_query_material 2) [small_run_draws]))
   = ([[1]], [[4294967291], [1]])"
  using end_to_end_simulation_equivalence
    [where m = 1 and n = 2 and k = 1
       and ?U0.0 = "[[1]]" and ?U1.0 = "[[2]]" and ?V0.0 = "[[1], [0]]" and ?V1.0 = "[[0], [1]]"
       and choices = "[small_run_choice]" and draws = "[small_run_draws]"]
  by (simp add: mat_dims_def query_choice_ok_def query_draws_ok_def dot_draw_ok_def
      scalar_vector_draw_ok_def cleartext_query_def cleartext_simulation_example)

end
